theory Spec2Isabelle
  imports Complex_Main
begin

section \<open>Values, errors and the objects the trainer works on\<close>

text \<open>
  The development embeds \<^verbatim>\<open>src/polaris/training/trainer.py\<close> (class \<^verbatim>\<open>Trainer\<close>).
  Python floats and tensor entries are modelled as real numbers extended with the three
  special IEEE values; rounding is not modelled. Every exception the code can raise on the
  modelled inputs is a value of \<open>error\<close>, and a function that can raise returns
  \<open>error + result\<close> with \<open>Inl\<close> for the exception.
\<close>

datatype error =
    InvalidBeliefDistributionError
  | ObservationProcessingError
  | InsufficientDataError
  | KeyError
  | TypeError
  | AttributeError
  | IndexError
  | UnboundLocalError
  | ZeroDivisionError

text \<open>A tensor entry. A tensor of shape \<open>[1, n]\<close> is the list of its \<open>n\<close> entries.\<close>

datatype fval = Fin real | PInf | NInf | NaN

type_synonym tensor = "fval list"

text \<open>
  A Python number as \<^verbatim>\<open>isinstance(x, float)\<close> sees it: \<open>PyFloat\<close> is a \<^verbatim>\<open>float\<close>
  (or a subclass such as \<^verbatim>\<open>numpy.float64\<close>), \<open>PyInt\<close> is an \<^verbatim>\<open>int\<close>.
\<close>

datatype num = PyFloat real | PyInt int

fun num_val :: "num \<Rightarrow> real" where
  "num_val (PyFloat r) = r"
| "num_val (PyInt i) = of_int i"

text \<open>
  A per-agent reward as the environment hands it over: a bare scalar, or a mapping
  (\<^verbatim>\<open>dict\<close>) from component names to numbers.
\<close>

datatype reward = Scalar num | Struct "string \<rightharpoonup> num"

text \<open>Neighbour actions or allocations: a mapping from neighbour id to a number.\<close>

type_synonym nbrs = "nat \<rightharpoonup> real"

text \<open>
  An observation record is a \<^verbatim>\<open>dict\<close>; a field is \<open>None\<close> when the key is absent.
  The value stored under \<^verbatim>\<open>neighbor_allocations\<close> can itself be Python's \<^verbatim>\<open>None\<close>,
  hence the second \<open>option\<close>.
\<close>

record obs_data =
  signal :: "real option"
  background_signal :: "real option"
  background_increment :: "real option"
  neighbor_actions :: "nbrs option"
  neighbor_allocations :: "nbrs option option"

text \<open>The transition handed to \<^verbatim>\<open>store_transition_in_buffer\<close>, argument by argument.\<close>

record transition =
  t_signal :: tensor
  t_neighbor_actions :: tensor
  t_belief :: tensor
  t_latent :: tensor
  t_action :: real
  t_reward :: num
  t_next_signal :: tensor
  t_next_neighbor_actions :: tensor
  t_next_belief :: tensor
  t_next_latent :: tensor
  t_mean :: tensor
  t_logvar :: tensor

text \<open>
  The attributes of a \<^verbatim>\<open>POLARISAgent\<close> that the trainer reads or writes. An attribute
  probed with \<^verbatim>\<open>hasattr\<close> is an \<open>option\<close> (\<open>None\<close>: the attribute is absent) or a
  presence flag; \<open>internals\<close> stands for everything else the object holds (networks,
  optimiser state), which only the agent's own methods touch.
\<close>

record 'w agent =
  current_belief :: tensor
  current_latent :: tensor
  current_belief_distribution :: "tensor option"
  continuous_actions :: "bool option"
  policy_has_forward :: bool
  use_si :: "bool option"
  current_true_state :: "nat option"
  seen_true_states :: "nat set option"
  has_belief_si :: bool
  has_policy_si :: bool
  path_integrals_calculated :: bool
  state_belief_si_trackers :: "nat set option"
  state_policy_si_trackers :: "nat set option"
  internals :: 'w

text \<open>
  The methods of the agent and the encoder of \<^verbatim>\<open>polaris.utils.encoding\<close> are not part
  of the trainer; they are parameters of the model. A method takes the agent and returns
  the agent it leaves behind together with its result.
  \<open>encode_observation\<close> takes \<^verbatim>\<open>signal\<close>, \<^verbatim>\<open>neighbor_actions\<close>,
  \<^verbatim>\<open>continuous_actions\<close> and \<^verbatim>\<open>continuous_signal\<close> (\<^verbatim>\<open>num_agents\<close> and
  \<^verbatim>\<open>num_states\<close> are fixed by the environment); \<open>policy\<close> returns the action logits
  and \<^verbatim>\<open>allocation.item()\<close>; \<open>draw\<close> is the random choice made by the buffer's
  \<^verbatim>\<open>sample\<close>.
\<close>

record 'w caps =
  encode_observation :: "real \<Rightarrow> nbrs \<Rightarrow> bool \<Rightarrow> bool \<Rightarrow> tensor \<times> tensor"
  observe :: "'w agent \<Rightarrow> tensor \<Rightarrow> tensor \<Rightarrow> 'w agent \<times> tensor \<times> tensor"
  infer_latent :: "'w agent \<Rightarrow> tensor \<Rightarrow> tensor \<Rightarrow> num \<Rightarrow> tensor \<Rightarrow> 'w agent \<times> tensor"
  get_belief_distribution :: "'w agent \<Rightarrow> tensor"
  get_latent_distribution_params :: "'w agent \<Rightarrow> tensor \<times> tensor"
  policy :: "'w agent \<Rightarrow> tensor \<Rightarrow> tensor \<Rightarrow> tensor \<times> real"
  agent_update :: "'w agent \<Rightarrow> transition list \<Rightarrow> 'w agent"
  draw :: "transition list \<Rightarrow> int \<Rightarrow> transition list"

text \<open>The fields of \<^verbatim>\<open>self.args\<close> that the modelled code reads.\<close>

record args =
  args_continuous_actions :: bool
  args_use_si :: bool
  batch_size :: int
  update_interval :: int
  buffer_capacity :: nat
  seed :: int

text \<open>
  Calls that leave the trainer, in the order they are made. The first component of a
  call into a network is the autograd mode in force when the call is made
  (\<open>True\<close>: gradients are recorded; \<open>False\<close>: inside \<^verbatim>\<open>torch.no_grad()\<close>).
\<close>

datatype event =
    Observe nat bool tensor tensor
  | InferLatent nat bool tensor tensor num tensor
  | AppendBeliefDistribution nat tensor
  | Policy nat bool tensor tensor
  | StoreTransition nat transition
  | Sample nat int
  | Update nat "transition list"
  | RegisterTaskBelief nat
  | RegisterTaskPolicy nat
  | SetTaskBelief nat nat
  | SetTaskPolicy nat nat


section \<open>The per-agent update of \<^verbatim>\<open>Trainer._update_agent_states\<close>\<close>

subsection \<open>Signals and neighbour actions of an observation pair (lines 766--804)\<close>

text \<open>
  \<^verbatim>\<open>obs_data.get("neighbor_allocations", {})\<close> followed by the replacement of
  \<^verbatim>\<open>None\<close> by the empty mapping.
\<close>

fun allocations_or_empty :: "nbrs option option \<Rightarrow> nbrs" where
  "allocations_or_empty None = Map.empty"
| "allocations_or_empty (Some None) = Map.empty"
| "allocations_or_empty (Some (Some d)) = d"

text \<open>
  The \<^verbatim>\<open>if "signal" in obs_data ... elif "background_signal" in obs_data ...\<close> cascade.
  The four local variables it assigns live across the iterations of the loop over the
  agents: \<open>locals\<close> holds the values a previous iteration left (\<open>None\<close> in the first
  iteration). When neither branch is taken the variables keep those values, and reading
  them unbound raises \<^verbatim>\<open>UnboundLocalError\<close>. A missing key in a subscript
  raises \<^verbatim>\<open>KeyError\<close>.
\<close>

definition extract_signals ::
  "(real \<times> real \<times> nbrs \<times> nbrs) option \<Rightarrow> obs_data \<Rightarrow> obs_data
     \<Rightarrow> error + (real \<times> real \<times> nbrs \<times> nbrs)" where
  "extract_signals locals obs next_obs =
     (case signal obs of
        Some s \<Rightarrow>
          (case signal next_obs of
             None \<Rightarrow> Inl KeyError
           | Some ns \<Rightarrow>
               (case neighbor_actions obs of
                  None \<Rightarrow> Inl KeyError
                | Some na \<Rightarrow>
                    (case neighbor_actions next_obs of
                       None \<Rightarrow> Inl KeyError
                     | Some nna \<Rightarrow> Inr (s, ns, na, nna))))
      | None \<Rightarrow>
          (case background_signal obs of
             Some b \<Rightarrow>
               (case background_increment obs of
                  None \<Rightarrow> Inl ObservationProcessingError
                | Some s \<Rightarrow>
                    (case background_increment next_obs of
                       None \<Rightarrow> Inl ObservationProcessingError
                     | Some ns \<Rightarrow>
                         Inr (s, ns, allocations_or_empty (neighbor_allocations obs),
                              allocations_or_empty (neighbor_allocations next_obs))))
           | None \<Rightarrow>
               (case locals of
                  None \<Rightarrow> Inl UnboundLocalError
                | Some l \<Rightarrow> Inr l)))"

subsection \<open>The two readings of a reward\<close>

text \<open>
  The argument of \<^verbatim>\<open>infer_latent\<close> (lines 840--844 and 855--859):
  \<^verbatim>\<open>rewards[agent_id] if isinstance(rewards[agent_id], float) else rewards[agent_id]["total"]\<close>.
  Subscripting an \<^verbatim>\<open>int\<close> raises \<^verbatim>\<open>TypeError\<close>.
\<close>

fun latent_reward :: "reward \<Rightarrow> error + num" where
  "latent_reward (Scalar (PyFloat r)) = Inr (PyFloat r)"
| "latent_reward (Scalar (PyInt i)) = Inl TypeError"
| "latent_reward (Struct d) = (case d ''total'' of None \<Rightarrow> Inl KeyError | Some v \<Rightarrow> Inr v)"

text \<open>
  The stored reward (lines 876--880):
  \<^verbatim>\<open>rewards[agent_id]["total"] if isinstance(rewards[agent_id], dict) else rewards[agent_id]\<close>.
\<close>

fun reward_value :: "reward \<Rightarrow> error + num" where
  "reward_value (Struct d) = (case d ''total'' of None \<Rightarrow> Inl KeyError | Some v \<Rightarrow> Inr v)"
| "reward_value (Scalar n) = Inr n"

text \<open>
  The accumulation in \<^verbatim>\<open>Trainer.quick_evaluate\<close> (lines 1066--1070), for one entry of
  \<^verbatim>\<open>rewards.items()\<close>: \<^verbatim>\<open>total_rewards\<close> is a float array of length \<^verbatim>\<open>num_agents\<close>.
  In \<^verbatim>\<open>total_rewards[agent_id] += reward["total"]\<close> the element of the array is loaded
  before the right-hand side is evaluated, so an agent id out of range raises
  \<^verbatim>\<open>IndexError\<close> even when the mapping has no \<^verbatim>\<open>total\<close>.
\<close>

definition accumulate_reward :: "real list \<Rightarrow> nat \<Rightarrow> reward \<Rightarrow> error + real list" where
  "accumulate_reward total_rewards agent_id rw =
     (case rw of
        Struct d \<Rightarrow>
          if agent_id < length total_rewards
          then (case d ''total'' of
                  None \<Rightarrow> Inl KeyError
                | Some v \<Rightarrow>
                    Inr (total_rewards[agent_id := total_rewards ! agent_id + num_val v]))
          else Inl IndexError
      | Scalar n \<Rightarrow>
          if agent_id < length total_rewards
          then Inr (total_rewards[agent_id := total_rewards ! agent_id + num_val n])
          else Inl IndexError)"

subsection \<open>The replay buffer\<close>

text \<open>
  Modelled from the spec: \<^verbatim>\<open>ReplayBuffer\<close> (\<^verbatim>\<open>polaris/agents/memory/replay_buffer.py\<close>)
  and \<^verbatim>\<open>store_transition_in_buffer\<close> (\<^verbatim>\<open>polaris/utils/io.py\<close>) are not among the
  sources. The spec gives the buffer a fixed capacity; storing appends and evicts the
  oldest record when full; sampling a batch of size \<open>B\<close> from \<open>S\<close> records fails iff
  \<open>S \<le> B\<close> and otherwise returns the records drawn.
\<close>

record replay_buffer =
  capacity :: nat
  items :: "transition list"

definition store_transition_in_buffer :: "replay_buffer \<Rightarrow> transition \<Rightarrow> replay_buffer" where
  "store_transition_in_buffer buf tr =
     (let xs = items buf @ [tr]
      in buf\<lparr>items := drop (length xs - capacity buf) xs\<rparr>)"

definition buffer_len :: "replay_buffer \<Rightarrow> int" where
  "buffer_len buf = int (length (items buf))"

definition sample ::
  "(transition list \<Rightarrow> int \<Rightarrow> transition list) \<Rightarrow> replay_buffer \<Rightarrow> int
     \<Rightarrow> error + transition list" where
  "sample drw buf b =
     (if buffer_len buf \<le> b then Inl InsufficientDataError else Inr (drw (items buf) b))"

subsection \<open>Storing the transition and updating the networks (lines 870--923)\<close>

text \<open>What one agent's iteration leaves behind.\<close>

record 'w agent_step =
  as_agent :: "'w agent"
  as_buffers :: "nat \<rightharpoonup> replay_buffer"
  as_locals :: "real \<times> real \<times> nbrs \<times> nbrs"
  as_events :: "event list"

text \<open>
  The body of \<^verbatim>\<open>if training and agent_id in self.replay_buffers\<close>, entered with the
  agent as \<^verbatim>\<open>observe\<close> and \<^verbatim>\<open>infer_latent\<close> left it. \<open>grad\<close> is the autograd mode
  in force in the caller: the code opens no \<^verbatim>\<open>torch.no_grad()\<close> here.
  \<^verbatim>\<open>step % update_interval\<close> raises \<^verbatim>\<open>ZeroDivisionError\<close> when the interval is 0,
  and is evaluated only when the first conjunct holds. The calls that report the losses
  to the metrics tracker (lines 916--923) change nothing modelled here and are left out.
\<close>

definition store_and_train ::
  "'w caps \<Rightarrow> args \<Rightarrow> bool \<Rightarrow> int \<Rightarrow> (nat \<rightharpoonup> real) \<Rightarrow> reward
     \<Rightarrow> (nat \<rightharpoonup> replay_buffer) \<Rightarrow> replay_buffer \<Rightarrow> nat \<Rightarrow> 'w agent
     \<Rightarrow> real \<times> real \<times> nbrs \<times> nbrs \<Rightarrow> event list \<Rightarrow> transition
     \<Rightarrow> error + 'w agent_step" where
  "store_and_train cp ar grad step actions rw replay_buffers buf agent_id ag lcl evs tr0 =
     (let (mean, logvar) = get_latent_distribution_params cp ag
      in case reward_value rw of
           Inl e \<Rightarrow> Inl e
         | Inr rv \<Rightarrow>
             (case actions agent_id of
                None \<Rightarrow> Inl KeyError
              | Some a \<Rightarrow>
                  (let requery = (args_continuous_actions ar \<and> continuous_actions ag = Some True);
                       action_to_store =
                         (if requery
                          then snd (policy cp ag (current_belief ag) (current_latent ag))
                          else a);
                       tr = tr0\<lparr>t_action := action_to_store, t_reward := rv,
                                 t_mean := mean, t_logvar := logvar\<rparr>;
                       buf' = store_transition_in_buffer buf tr;
                       evs' = evs
                         @ (if requery
                            then [Policy agent_id grad (current_belief ag) (current_latent ag)]
                            else [])
                         @ [StoreTransition agent_id tr];
                       stored = \<lparr>as_agent = ag, as_buffers = replay_buffers(agent_id \<mapsto> buf'),
                                 as_locals = lcl, as_events = evs'\<rparr>
                   in if buffer_len buf' > batch_size ar
                      then (if update_interval ar = 0 then Inl ZeroDivisionError
                            else if step mod update_interval ar = 0
                            then (case sample (draw cp) buf' (batch_size ar) of
                                    Inl e \<Rightarrow> Inl e
                                  | Inr batch \<Rightarrow>
                                      Inr (stored\<lparr>as_agent := agent_update cp ag batch,
                                                  as_events := evs' @ [Sample agent_id (batch_size ar),
                                                                       Update agent_id batch]\<rparr>))
                            else Inr stored)
                      else Inr stored)))"

subsection \<open>One iteration of the loop over the agents (lines 760--923)\<close>

text \<open>
  Lines 761--867: the observation pair is decoded and encoded, the pre-update belief and
  latent are copied, then \<^verbatim>\<open>observe\<close> and \<^verbatim>\<open>infer_latent\<close> are called and the
  belief distribution is appended to the metrics. \<open>grad\<close> is the autograd mode in force
  when \<^verbatim>\<open>_update_agent_states\<close> is entered: in training the two calls run in that mode,
  in evaluation they run inside \<^verbatim>\<open>with torch.no_grad()\<close>. The arguments of
  \<^verbatim>\<open>infer_latent\<close> are evaluated after \<^verbatim>\<open>observe\<close> has returned. The result holds the
  agent as the calls left it, the four local variables, the calls made, and the ten
  tensors of the transition that are known at this point (its action, reward, mean and
  log-variance are set when it is stored).
\<close>

definition observe_and_infer ::
  "'w caps \<Rightarrow> args \<Rightarrow> bool \<Rightarrow> bool
     \<Rightarrow> (nat \<rightharpoonup> obs_data) \<Rightarrow> (nat \<rightharpoonup> obs_data) \<Rightarrow> (nat \<rightharpoonup> reward)
     \<Rightarrow> (real \<times> real \<times> nbrs \<times> nbrs) option \<Rightarrow> nat \<Rightarrow> 'w agent
     \<Rightarrow> error + ('w agent \<times> (real \<times> real \<times> nbrs \<times> nbrs) \<times> event list \<times> transition)" where
  "observe_and_infer cp ar training grad observations next_observations rewards locals
       agent_id ag =
     (case observations agent_id of
        None \<Rightarrow> Inl KeyError
      | Some obs \<Rightarrow>
     (case next_observations agent_id of
        None \<Rightarrow> Inl KeyError
      | Some next_obs \<Rightarrow>
     (case extract_signals locals obs next_obs of
        Inl e \<Rightarrow> Inl e
      | Inr (sg, next_sg, nb, next_nb) \<Rightarrow>
     (let continuous_signal = (background_increment obs \<noteq> None);
          (signal_encoded, actions_encoded) =
             encode_observation cp sg nb (args_continuous_actions ar) continuous_signal;
          (next_signal_encoded, next_actions_encoded) =
             encode_observation cp next_sg next_nb (args_continuous_actions ar) continuous_signal;
          belief = current_belief ag;
          latent = current_latent ag;
          g = (if training then grad else False);
          (ag1, next_belief, next_dstr) = observe cp ag signal_encoded actions_encoded
      in case rewards agent_id of
           None \<Rightarrow> Inl KeyError
         | Some rw \<Rightarrow>
        (case latent_reward rw of
           Inl e \<Rightarrow> Inl e
         | Inr r \<Rightarrow>
        (let fourth = (if training then next_signal_encoded else signal_encoded);
             (ag2, next_latent) = infer_latent cp ag1 signal_encoded actions_encoded r fourth;
             belief_distribution = get_belief_distribution cp ag2
         in Inr (ag2, (sg, next_sg, nb, next_nb),
                 [Observe agent_id g signal_encoded actions_encoded,
                  InferLatent agent_id g signal_encoded actions_encoded r fourth,
                  AppendBeliefDistribution agent_id belief_distribution],
                 \<lparr>t_signal = signal_encoded, t_neighbor_actions = actions_encoded,
                  t_belief = belief, t_latent = latent, t_action = 0, t_reward = r,
                  t_next_signal = next_signal_encoded,
                  t_next_neighbor_actions = next_actions_encoded,
                  t_next_belief = next_belief, t_next_latent = next_latent,
                  t_mean = [], t_logvar = []\<rparr>)))))))"

text \<open>
  The whole iteration: the transition is stored, and the networks are updated, only under
  \<^verbatim>\<open>if training and agent_id in self.replay_buffers\<close>.
\<close>

definition update_agent ::
  "'w caps \<Rightarrow> args \<Rightarrow> bool \<Rightarrow> bool \<Rightarrow> int
     \<Rightarrow> (nat \<rightharpoonup> obs_data) \<Rightarrow> (nat \<rightharpoonup> obs_data) \<Rightarrow> (nat \<rightharpoonup> real) \<Rightarrow> (nat \<rightharpoonup> reward)
     \<Rightarrow> (real \<times> real \<times> nbrs \<times> nbrs) option \<Rightarrow> (nat \<rightharpoonup> replay_buffer)
     \<Rightarrow> nat \<Rightarrow> 'w agent \<Rightarrow> error + 'w agent_step" where
  "update_agent cp ar training grad step observations next_observations actions rewards
       locals replay_buffers agent_id ag =
     (case observe_and_infer cp ar training grad observations next_observations rewards
             locals agent_id ag of
        Inl e \<Rightarrow> Inl e
      | Inr (ag2, lcl, evs, tr0) \<Rightarrow>
          (case (if training then replay_buffers agent_id else None) of
             Some buf \<Rightarrow>
               (case rewards agent_id of
                  None \<Rightarrow> Inl KeyError
                | Some rw \<Rightarrow>
                    store_and_train cp ar grad step actions rw replay_buffers buf agent_id ag2
                      lcl evs tr0)
           | None \<Rightarrow>
               Inr \<lparr>as_agent = ag2, as_buffers = replay_buffers, as_locals = lcl,
                    as_events = evs\<rparr>))"

text \<open>The loop \<^verbatim>\<open>for agent_id, agent in self.agents.items()\<close>; an exception ends it.\<close>

fun update_agents_loop ::
  "'w caps \<Rightarrow> args \<Rightarrow> bool \<Rightarrow> bool \<Rightarrow> int
     \<Rightarrow> (nat \<rightharpoonup> obs_data) \<Rightarrow> (nat \<rightharpoonup> obs_data) \<Rightarrow> (nat \<rightharpoonup> real) \<Rightarrow> (nat \<rightharpoonup> reward)
     \<Rightarrow> (real \<times> real \<times> nbrs \<times> nbrs) option \<Rightarrow> (nat \<rightharpoonup> replay_buffer)
     \<Rightarrow> (nat \<times> 'w agent) list
     \<Rightarrow> error + ((nat \<times> 'w agent) list \<times> (nat \<rightharpoonup> replay_buffer) \<times> event list)" where
  "update_agents_loop cp ar training grad step observations next_observations actions rewards
       locals replay_buffers [] = Inr ([], replay_buffers, [])"
| "update_agents_loop cp ar training grad step observations next_observations actions rewards
       locals replay_buffers ((agent_id, ag) # rest) =
     (case update_agent cp ar training grad step observations next_observations actions rewards
             locals replay_buffers agent_id ag of
        Inl e \<Rightarrow> Inl e
      | Inr r \<Rightarrow>
          (case update_agents_loop cp ar training grad step observations next_observations
                  actions rewards (Some (as_locals r)) (as_buffers r) rest of
             Inl e \<Rightarrow> Inl e
           | Inr (ags, bufs, evs) \<Rightarrow>
               Inr ((agent_id, as_agent r) # ags, bufs, as_events r @ evs)))"

definition update_agent_states ::
  "'w caps \<Rightarrow> args \<Rightarrow> bool \<Rightarrow> bool \<Rightarrow> int
     \<Rightarrow> (nat \<rightharpoonup> obs_data) \<Rightarrow> (nat \<rightharpoonup> obs_data) \<Rightarrow> (nat \<rightharpoonup> real) \<Rightarrow> (nat \<rightharpoonup> reward)
     \<Rightarrow> (nat \<rightharpoonup> replay_buffer) \<Rightarrow> (nat \<times> 'w agent) list
     \<Rightarrow> error + ((nat \<times> 'w agent) list \<times> (nat \<rightharpoonup> replay_buffer) \<times> event list)" where
  "update_agent_states cp ar training grad step observations next_observations actions rewards
       replay_buffers agents =
     update_agents_loop cp ar training grad step observations next_observations actions rewards
       None replay_buffers agents"


section \<open>\<^verbatim>\<open>Trainer._collect_policy_information\<close>\<close>

text \<open>\<^verbatim>\<open>torch.isnan(t).any()\<close>.\<close>

definition any_isnan :: "tensor \<Rightarrow> bool" where
  "any_isnan t = list_ex (\<lambda>x. x = NaN) t"

text \<open>
  IEEE comparison, addition and multiplication on the extended values (a comparison with
  \<open>NaN\<close> is false; \<open>\<infinity> - \<infinity>\<close> and \<open>0 \<cdot> \<infinity>\<close> are \<open>NaN\<close>).
\<close>

fun flt :: "fval \<Rightarrow> fval \<Rightarrow> bool" where
  "flt NaN y = False"
| "flt x NaN = False"
| "flt (Fin a) (Fin b) = (a < b)"
| "flt (Fin a) PInf = True"
| "flt NInf (Fin b) = True"
| "flt NInf PInf = True"
| "flt x y = False"

fun fadd :: "fval \<Rightarrow> fval \<Rightarrow> fval" where
  "fadd NaN y = NaN"
| "fadd x NaN = NaN"
| "fadd (Fin a) (Fin b) = Fin (a + b)"
| "fadd PInf NInf = NaN"
| "fadd NInf PInf = NaN"
| "fadd PInf y = PInf"
| "fadd x PInf = PInf"
| "fadd NInf y = NInf"
| "fadd x NInf = NInf"

fun fmul :: "fval \<Rightarrow> fval \<Rightarrow> fval" where
  "fmul NaN y = NaN"
| "fmul x NaN = NaN"
| "fmul (Fin a) (Fin b) = Fin (a * b)"
| "fmul (Fin a) PInf = (if a = 0 then NaN else if 0 < a then PInf else NInf)"
| "fmul (Fin a) NInf = (if a = 0 then NaN else if 0 < a then NInf else PInf)"
| "fmul PInf (Fin b) = (if b = 0 then NaN else if 0 < b then PInf else NInf)"
| "fmul NInf (Fin b) = (if b = 0 then NaN else if 0 < b then NInf else PInf)"
| "fmul PInf PInf = PInf"
| "fmul NInf NInf = PInf"
| "fmul PInf NInf = NInf"
| "fmul NInf PInf = NInf"

text \<open>Python's \<^verbatim>\<open>min(a, b)\<close> and \<^verbatim>\<open>max(a, b)\<close>: the first argument unless the second beats it.\<close>

definition py_min :: "fval \<Rightarrow> fval \<Rightarrow> fval" where
  "py_min a b = (if flt b a then b else a)"

definition py_max :: "fval \<Rightarrow> fval \<Rightarrow> fval" where
  "py_max a b = (if flt a b then b else a)"

text \<open>
  Lines 653--677, for a distribution of shape \<open>[1, n]\<close> without \<open>NaN\<close>: one entry is
  clipped to \<open>[0, 1]\<close>; of two entries the second is taken; otherwise the entries are
  weighted by \<^verbatim>\<open>arange(n) / (n - 1)\<close> and summed.
\<close>

definition belief_about_state :: "tensor \<Rightarrow> fval" where
  "belief_about_state d =
     (if length d = 1 then py_max (Fin 0) (py_min (Fin 1) (d ! 0))
      else if length d = 2 then d ! 1
      else foldl fadd (Fin 0)
             (map2 fmul d (map (\<lambda>i. Fin (real i / (real (length d) - 1))) [0..<length d])))"

text \<open>
  The loop of lines 637--677 over \<^verbatim>\<open>self.agents.items()\<close>. An agent without a belief
  distribution (attribute absent or \<^verbatim>\<open>None\<close>) is skipped.
\<close>

fun collect_agent_beliefs :: "(nat \<times> 'w agent) list \<Rightarrow> error + (nat \<times> fval) list" where
  "collect_agent_beliefs [] = Inr []"
| "collect_agent_beliefs ((agent_id, ag) # rest) =
     (case current_belief_distribution ag of
        None \<Rightarrow> collect_agent_beliefs rest
      | Some d \<Rightarrow>
          if any_isnan d then Inl InvalidBeliefDistributionError
          else (case collect_agent_beliefs rest of
                  Inl e \<Rightarrow> Inl e
                | Inr bs \<Rightarrow> Inr ((agent_id, belief_about_state d) # bs)))"

text \<open>
  The loop of lines 683--693: every agent with continuous actions and a policy with a
  \<^verbatim>\<open>forward\<close> method is queried, inside \<^verbatim>\<open>torch.no_grad()\<close> when not training and
  inside \<^verbatim>\<open>torch.enable_grad()\<close> when training.
\<close>

fun collect_policy_means :: "'w caps \<Rightarrow> bool \<Rightarrow> (nat \<times> 'w agent) list \<Rightarrow> real list \<times> event list" where
  "collect_policy_means cp training [] = ([], [])"
| "collect_policy_means cp training ((agent_id, ag) # rest) =
     (let (ms, evs) = collect_policy_means cp training rest
      in if continuous_actions ag = Some True \<and> policy_has_forward ag
         then (snd (policy cp ag (current_belief ag) (current_latent ag)) # ms,
               Policy agent_id training (current_belief ag) (current_latent ag) # evs)
         else (ms, evs))"

text \<open>
  The step information: the entries the trainer writes into the mapping returned by
  \<^verbatim>\<open>env.step\<close> (\<open>None\<close>: key absent); \<open>info_rest\<close> is everything else in it.
\<close>

record ('i, 'p) info =
  allocations :: "(nat \<rightharpoonup> real) option"
  policy_means :: "real list option"
  policy_stds :: "real list option"
  agent_beliefs :: "(nat \<times> fval) list option"
  env_params :: "'p option"
  info_rest :: 'i

text \<open>
  \<^verbatim>\<open>_collect_policy_information\<close> returns the entries of \<^verbatim>\<open>policy_info\<close>:
  means, standard deviations (all 0.0) and beliefs. \<open>strategic\<close> is
  \<^verbatim>\<open>hasattr(self.env, "safe_payoff")\<close>.
\<close>

definition collect_policy_information ::
  "'w caps \<Rightarrow> bool \<Rightarrow> args \<Rightarrow> bool \<Rightarrow> (nat \<times> 'w agent) list
     \<Rightarrow> error + ((real list option \<times> real list option \<times> (nat \<times> fval) list) \<times> event list)" where
  "collect_policy_information cp strategic ar training agents =
     (case (if strategic then collect_agent_beliefs agents else Inr []) of
        Inl e \<Rightarrow> Inl e
      | Inr beliefs \<Rightarrow>
          if args_continuous_actions ar
          then (let (ms, evs) = collect_policy_means cp training agents
                in Inr ((Some ms, Some (map (\<lambda>m. 0) ms), beliefs), evs))
          else Inr ((None, None, beliefs), []))"

section \<open>Synaptic-Intelligence bookkeeping\<close>

text \<open>
  \<^verbatim>\<open>_setup_si_for_training\<close> (lines 597--612), for one agent: \<open>current\<close> is
  \<^verbatim>\<open>self.env.true_state\<close>. Only \<^verbatim>\<open>set_task\<close> is called on the two trackers.
\<close>

definition setup_si_agent :: "nat \<Rightarrow> nat \<Rightarrow> 'w agent \<Rightarrow> 'w agent \<times> event list" where
  "setup_si_agent current agent_id ag =
     (if use_si ag = Some True
      then (if has_belief_si ag \<and> has_policy_si ag
            then (ag\<lparr>current_true_state := Some current, path_integrals_calculated := True\<rparr>,
                  [SetTaskBelief agent_id current, SetTaskPolicy agent_id current])
            else (ag\<lparr>current_true_state := Some current\<rparr>, []))
      else (ag, []))"

fun setup_si_loop :: "nat \<Rightarrow> (nat \<times> 'w agent) list \<Rightarrow> (nat \<times> 'w agent) list \<times> event list" where
  "setup_si_loop current [] = ([], [])"
| "setup_si_loop current ((agent_id, ag) # rest) =
     (let (ag', evs) = setup_si_agent current agent_id ag;
          (rest', evs') = setup_si_loop current rest
      in ((agent_id, ag') # rest', evs @ evs'))"

definition setup_si_for_training ::
  "args \<Rightarrow> nat \<Rightarrow> (nat \<times> 'w agent) list \<Rightarrow> (nat \<times> 'w agent) list \<times> event list" where
  "setup_si_for_training ar current agents =
     (if args_use_si ar then setup_si_loop current agents else (agents, []))"

text \<open>
  \<^verbatim>\<open>_handle_si_state_changes\<close> (lines 708--748), for one agent. The two archives of
  tracker clones are mappings keyed by state; only their key sets are modelled. The
  policy archive is written under \<^verbatim>\<open>hasattr(agent, "state_belief_si_trackers")\<close> alone,
  so its absence raises \<^verbatim>\<open>AttributeError\<close>.
\<close>

definition handle_si_agent :: "nat \<Rightarrow> nat \<Rightarrow> 'w agent \<Rightarrow> error + ('w agent \<times> event list)" where
  "handle_si_agent current agent_id ag =
     (if use_si ag = Some True
      then (case seen_true_states ag of
              None \<Rightarrow> Inr (ag, [])
            | Some seen \<Rightarrow>
                (let calls = [RegisterTaskBelief agent_id, RegisterTaskPolicy agent_id,
                              SetTaskBelief agent_id current, SetTaskPolicy agent_id current];
                     mark = (\<lambda>a. a\<lparr>seen_true_states := Some (insert current seen),
                                     current_true_state := Some current\<rparr>)
                 in if current \<notin> seen
                    then (if has_belief_si ag \<and> has_policy_si ag
                          then (case state_belief_si_trackers ag of
                                  None \<Rightarrow> Inr (mark ag, calls)
                                | Some bt \<Rightarrow>
                                    (case state_policy_si_trackers ag of
                                       None \<Rightarrow> Inl AttributeError
                                     | Some pt \<Rightarrow>
                                         Inr (mark (ag\<lparr>state_belief_si_trackers := Some (insert current bt),
                                                       state_policy_si_trackers := Some (insert current pt)\<rparr>),
                                              calls)))
                          else Inr (mark ag, []))
                    else Inr (mark ag, [])))
      else Inr (ag, []))"

fun handle_si_loop ::
  "nat \<Rightarrow> (nat \<times> 'w agent) list \<Rightarrow> error + ((nat \<times> 'w agent) list \<times> event list)" where
  "handle_si_loop current [] = Inr ([], [])"
| "handle_si_loop current ((agent_id, ag) # rest) =
     (case handle_si_agent current agent_id ag of
        Inl e \<Rightarrow> Inl e
      | Inr (ag', evs) \<Rightarrow>
          (case handle_si_loop current rest of
             Inl e \<Rightarrow> Inl e
           | Inr (rest', evs') \<Rightarrow> Inr ((agent_id, ag') # rest', evs @ evs')))"

definition handle_si_state_changes ::
  "args \<Rightarrow> nat \<Rightarrow> (nat \<times> 'w agent) list \<Rightarrow> error + ((nat \<times> 'w agent) list \<times> event list)" where
  "handle_si_state_changes ar current agents =
     (if args_use_si ar then handle_si_loop current agents else Inr (agents, []))"


section \<open>The simulation loop of \<^verbatim>\<open>Trainer._run_simulation\<close>\<close>

text \<open>
  What the trainer calls outside its own class: the environment (an opaque state \<open>'e\<close>
  with \<^verbatim>\<open>initialize\<close>, \<^verbatim>\<open>step\<close>, the attribute \<^verbatim>\<open>true_state\<close> and the
  presence of the attribute \<^verbatim>\<open>safe_payoff\<close>), the helpers of \<^verbatim>\<open>polaris.utils.io\<close>,
  and the constructor of the agents. The rewards returned by \<^verbatim>\<open>step\<close> are the items of
  a \<^verbatim>\<open>dict\<close>. \<open>new_agent i\<close> is the agent that
  \<^verbatim>\<open>_initialize_agents\<close> builds for id \<open>i\<close>: \<^verbatim>\<open>POLARISAgent(agent_id=i, ...)\<close> followed,
  in a strategic environment, by \<^verbatim>\<open>set_environment_parameters\<close>; all its arguments come
  from \<^verbatim>\<open>self.args\<close> and the environment's description.
  \<open>env_params_of\<close> is \<^verbatim>\<open>_extract_environment_params\<close>, a copy of attributes of the
  environment.
\<close>

record ('w, 'e, 'i, 'p) world =
  select_agent_actions ::
    "(nat \<times> 'w agent) list \<Rightarrow> (nat \<times> 'w agent) list \<times> (nat \<rightharpoonup> real) \<times> (nat \<rightharpoonup> real list)"
  env_initialize :: "'e \<Rightarrow> 'e \<times> (nat \<rightharpoonup> obs_data)"
  env_step ::
    "'e \<Rightarrow> (nat \<rightharpoonup> real) \<Rightarrow> (nat \<rightharpoonup> real list)
       \<Rightarrow> 'e \<times> (nat \<rightharpoonup> obs_data) \<times> (nat \<times> reward) list \<times> bool \<times> ('i, 'p) info"
  true_state :: "'e \<Rightarrow> nat"
  has_safe_payoff :: bool
  num_agents :: nat
  env_params_of :: "'e \<Rightarrow> 'p"
  new_agent :: "nat \<Rightarrow> 'w agent"
  reset_agent_internal_states :: "(nat \<times> 'w agent) list \<Rightarrow> (nat \<times> 'w agent) list"
  update_total_rewards :: "real list \<Rightarrow> (nat \<times> reward) list \<Rightarrow> real list"
  setup_random_seeds :: "int \<Rightarrow> 'e \<Rightarrow> 'e"

text \<open>
  The state of one run of \<^verbatim>\<open>_run_simulation\<close>: the trainer's attributes and the local
  variables of the loop. \<open>sim_metrics\<close> lists the step informations handed to
  \<^verbatim>\<open>metrics_tracker.update\<close>, oldest first; \<open>sim_events\<close> the calls into agents,
  buffers and trackers.
\<close>

record ('w, 'e, 'i, 'p) sim =
  sim_env :: 'e
  sim_agents :: "(nat \<times> 'w agent) list"
  sim_replay_buffers :: "nat \<rightharpoonup> replay_buffer"
  sim_observations :: "nat \<rightharpoonup> obs_data"
  sim_total_rewards :: "real list"
  sim_metrics :: "('i, 'p) info list"
  sim_events :: "event list"

text \<open>
  Lines 374--384: the allocation of an agent is \<^verbatim>\<open>float(probs[1])\<close> when its probability
  vector has at least two entries, and 0.5 otherwise.
\<close>

definition discrete_allocations :: "(nat \<rightharpoonup> real list) \<Rightarrow> (nat \<rightharpoonup> real)" where
  "discrete_allocations action_probs =
     (\<lambda>agent_id. case action_probs agent_id of
                    None \<Rightarrow> None
                  | Some probs \<Rightarrow> Some (if length probs \<ge> 2 then probs ! 1 else 1 / 2))"

text \<open>Lines 366--384: the entry \<^verbatim>\<open>info["allocations"]\<close>.\<close>

definition add_allocations ::
  "bool \<Rightarrow> args \<Rightarrow> (nat \<rightharpoonup> real) \<Rightarrow> (nat \<rightharpoonup> real list) \<Rightarrow> ('i, 'p) info \<Rightarrow> ('i, 'p) info" where
  "add_allocations strategic ar actions action_probs nfo =
     (if strategic
      then (if args_continuous_actions ar
            then (case allocations nfo of
                    None \<Rightarrow> nfo\<lparr>allocations := Some actions\<rparr>
                  | Some al \<Rightarrow> nfo)
            else nfo\<lparr>allocations := Some (discrete_allocations action_probs)\<rparr>)
      else nfo)"

text \<open>
  Lines 343--347: \<^verbatim>\<open>info.update(policy_info)\<close> (the mapping is never empty: it always
  holds \<^verbatim>\<open>agent_beliefs\<close>) and, in training, the environment parameters.
\<close>

definition add_policy_info ::
  "args \<Rightarrow> bool \<Rightarrow> 'p \<Rightarrow> real list option \<times> real list option \<times> (nat \<times> fval) list
     \<Rightarrow> ('i, 'p) info \<Rightarrow> ('i, 'p) info" where
  "add_policy_info ar training envp pinfo nfo =
     (let (means, stds, beliefs) = pinfo;
          nfo1 = (if args_continuous_actions ar
                  then nfo\<lparr>policy_means := means, policy_stds := stds, agent_beliefs := Some beliefs\<rparr>
                  else nfo\<lparr>agent_beliefs := Some beliefs\<rparr>)
      in if training then nfo1\<lparr>env_params := Some envp\<rparr> else nfo1)"

text \<open>
  One iteration of the loop over the steps (lines 330--397); the second component of the
  result is \<^verbatim>\<open>done\<close>. \<open>grad\<close> is the autograd mode in force in the caller. The
  capture of attention weights and the progress display read the agents and print;
  they are left out.
\<close>

definition simulation_step ::
  "('w, 'e, 'i, 'p) world \<Rightarrow> 'w caps \<Rightarrow> args \<Rightarrow> bool \<Rightarrow> bool \<Rightarrow> 'p \<Rightarrow> int
     \<Rightarrow> ('w, 'e, 'i, 'p) sim \<Rightarrow> error + (('w, 'e, 'i, 'p) sim \<times> bool)" where
  "simulation_step w cp ar training grad envp step s =
     (let (ags0, actions, action_probs) = select_agent_actions w (sim_agents s)
      in case collect_policy_information cp (has_safe_payoff w) ar training ags0 of
           Inl e \<Rightarrow> Inl e
         | Inr (pinfo, pevs) \<Rightarrow>
        (let (env', next_observations, rewards, done, info0) =
               env_step w (sim_env s) actions action_probs;
             info1 = add_policy_info ar training envp pinfo info0;
             total' = (if rewards \<noteq> []
                       then update_total_rewards w (sim_total_rewards s) rewards
                       else sim_total_rewards s)
         in case update_agent_states cp ar training grad step (sim_observations s)
                   next_observations actions (map_of rewards) (sim_replay_buffers s) ags0 of
              Inl e \<Rightarrow> Inl e
            | Inr (ags1, bufs, uevs) \<Rightarrow>
           (let info2 = add_allocations (has_safe_payoff w) ar actions action_probs info1;
                s' = \<lparr>sim_env = env', sim_agents = ags1, sim_replay_buffers = bufs,
                      sim_observations = next_observations, sim_total_rewards = total',
                      sim_metrics = sim_metrics s @ [info2],
                      sim_events = sim_events s @ pevs @ uevs\<rparr>
            in if done
               then (if training
                     then (case handle_si_state_changes ar (true_state w env') ags1 of
                             Inl e \<Rightarrow> Inl e
                           | Inr (ags2, sevs) \<Rightarrow>
                               Inr (s'\<lparr>sim_agents := ags2,
                                       sim_events := sim_events s' @ sevs\<rparr>, True))
                     else Inr (s', True))
               else Inr (s', False))))"

text \<open>\<^verbatim>\<open>for step in range(self.args.horizon)\<close>, left by \<^verbatim>\<open>break\<close> when \<^verbatim>\<open>done\<close>.\<close>

fun run_steps ::
  "('w, 'e, 'i, 'p) world \<Rightarrow> 'w caps \<Rightarrow> args \<Rightarrow> bool \<Rightarrow> bool \<Rightarrow> 'p \<Rightarrow> int list
     \<Rightarrow> ('w, 'e, 'i, 'p) sim \<Rightarrow> error + ('w, 'e, 'i, 'p) sim" where
  "run_steps w cp ar training grad envp [] s = Inr s"
| "run_steps w cp ar training grad envp (step # rest) s =
     (case simulation_step w cp ar training grad envp step s of
        Inl e \<Rightarrow> Inl e
      | Inr (s', done) \<Rightarrow>
          if done then Inr s' else run_steps w cp ar training grad envp rest s')"

text \<open>\<^verbatim>\<open>_initialize_agents\<close>: one new agent for every id in \<^verbatim>\<open>range(num_agents)\<close>.\<close>

definition initialize_agents :: "('w, 'e, 'i, 'p) world \<Rightarrow> (nat \<times> 'w agent) list" where
  "initialize_agents w = map (\<lambda>i. (i, new_agent w i)) [0..<num_agents w]"

text \<open>
  \<^verbatim>\<open>_run_simulation\<close> (lines 295--415): the environment is initialised, the agents are
  built anew, in training the current task is set, the agents' internal states are
  reset, and the steps are run. The metrics tracker is a new one for every episode.
\<close>

definition run_simulation ::
  "('w, 'e, 'i, 'p) world \<Rightarrow> 'w caps \<Rightarrow> args \<Rightarrow> bool \<Rightarrow> bool \<Rightarrow> nat
     \<Rightarrow> 'e \<Rightarrow> (nat \<rightharpoonup> replay_buffer) \<Rightarrow> error + ('w, 'e, 'i, 'p) sim" where
  "run_simulation w cp ar training grad horizon e bufs =
     (let (e1, obs) = env_initialize w e;
          ags = initialize_agents w;
          (ags1, sevs) = (if training then setup_si_for_training ar (true_state w e1) ags
                          else (ags, []));
          ags2 = reset_agent_internal_states w ags1
      in run_steps w cp ar training grad (env_params_of w e1) (map int [0..<horizon])
           \<lparr>sim_env = e1, sim_agents = ags2, sim_replay_buffers = bufs,
            sim_observations = obs, sim_total_rewards = replicate (num_agents w) 0,
            sim_metrics = [], sim_events = sevs\<rparr>)"

text \<open>
  The episode loop of \<^verbatim>\<open>_run_training\<close> (lines 132--147): episode \<open>k\<close> is seeded with
  \<^verbatim>\<open>seed + k\<close>; the replay buffers and the environment live on from one episode to the
  next. The result lists the final state of every episode.
\<close>

fun run_episodes ::
  "('w, 'e, 'i, 'p) world \<Rightarrow> 'w caps \<Rightarrow> args \<Rightarrow> bool \<Rightarrow> nat \<Rightarrow> nat list
     \<Rightarrow> 'e \<Rightarrow> (nat \<rightharpoonup> replay_buffer) \<Rightarrow> error + ('w, 'e, 'i, 'p) sim list" where
  "run_episodes w cp ar grad horizon [] e bufs = Inr []"
| "run_episodes w cp ar grad horizon (episode # rest) e bufs =
     (case run_simulation w cp ar True grad horizon
             (setup_random_seeds w (seed ar + int episode) e) bufs of
        Inl err \<Rightarrow> Inl err
      | Inr s \<Rightarrow>
          (case run_episodes w cp ar grad horizon rest (sim_env s) (sim_replay_buffers s) of
             Inl err \<Rightarrow> Inl err
           | Inr ss \<Rightarrow> Inr (s # ss)))"

text \<open>
  \<^verbatim>\<open>_initialize_replay_buffers\<close> and \<^verbatim>\<open>_run_training\<close>: one empty buffer of capacity
  \<^verbatim>\<open>buffer_capacity\<close> for every agent id.
\<close>

definition initialize_replay_buffers :: "('w, 'e, 'i, 'p) world \<Rightarrow> args \<Rightarrow> (nat \<rightharpoonup> replay_buffer)" where
  "initialize_replay_buffers w ar =
     (\<lambda>i. if i < num_agents w then Some \<lparr>capacity = buffer_capacity ar, items = []\<rparr> else None)"

definition run_training ::
  "('w, 'e, 'i, 'p) world \<Rightarrow> 'w caps \<Rightarrow> args \<Rightarrow> bool \<Rightarrow> nat \<Rightarrow> nat \<Rightarrow> 'e
     \<Rightarrow> error + ('w, 'e, 'i, 'p) sim list" where
  "run_training w cp ar grad horizon num_episodes e =
     run_episodes w cp ar grad horizon [0..<num_episodes] e (initialize_replay_buffers w ar)"


section \<open>\<^verbatim>\<open>Trainer._aggregate_episode_results\<close>\<close>

text \<open>
  The values of an episode's metrics record: \<^verbatim>\<open>None\<close>, a number (Python's \<^verbatim>\<open>int\<close>
  and \<^verbatim>\<open>float\<close> compare and hash by value, so one constructor serves both), a list, or
  a mapping keyed by agent id. An episode record is a \<^verbatim>\<open>dict\<close> from metric names to such
  values, kept as the list of its items in insertion order.
\<close>

datatype pyv = PNone | PNum real | PList "pyv list" | PDict "(nat \<times> pyv) list"

type_synonym episode = "(string \<times> pyv) list"

text \<open>Python's truth value of an object.\<close>

fun truthy :: "pyv \<Rightarrow> bool" where
  "truthy PNone = False"
| "truthy (PNum r) = (r \<noteq> 0)"
| "truthy (PList xs) = (xs \<noteq> [])"
| "truthy (PDict kvs) = (kvs \<noteq> [])"

fun is_num :: "pyv \<Rightarrow> bool" where
  "is_num (PNum r) = True"
| "is_num v = False"

fun num_of :: "pyv \<Rightarrow> real" where
  "num_of (PNum r) = r"
| "num_of v = 0"

fun is_list :: "pyv \<Rightarrow> bool" where
  "is_list (PList xs) = True"
| "is_list v = False"

text \<open>\<^verbatim>\<open>isinstance(value, dict) and all(isinstance(v, list) for v in value.values())\<close>.\<close>

fun is_dict_of_lists :: "pyv \<Rightarrow> bool" where
  "is_dict_of_lists (PDict kvs) = list_all (\<lambda>kv. is_list (snd kv)) kvs"
| "is_dict_of_lists v = False"

text \<open>\<^verbatim>\<open>ep.get(key, default)\<close> on an episode record.\<close>

definition dict_get :: "episode \<Rightarrow> string \<Rightarrow> pyv \<Rightarrow> pyv" where
  "dict_get ep key dflt = (case map_of ep key of None \<Rightarrow> dflt | Some v \<Rightarrow> v)"

text \<open>
  \<^verbatim>\<open>numpy.mean\<close> of a non-empty list of numbers is their sum divided by their count.
  What numpy does with any other argument is a parameter, \<open>other\<close>.
\<close>

definition np_mean :: "(pyv list \<Rightarrow> error + pyv) \<Rightarrow> pyv list \<Rightarrow> error + pyv" where
  "np_mean other xs =
     (if xs \<noteq> [] \<and> list_all is_num xs
      then Inr (PNum (sum_list (map num_of xs) / real (length xs)))
      else other xs)"

text \<open>A list comprehension or loop whose body can raise: the first exception ends it.\<close>

fun collect :: "('a \<Rightarrow> error + 'b) \<Rightarrow> 'a list \<Rightarrow> error + 'b list" where
  "collect f [] = Inr []"
| "collect f (x # xs) =
     (case f x of
        Inl e \<Rightarrow> Inl e
      | Inr y \<Rightarrow> (case collect f xs of Inl e \<Rightarrow> Inl e | Inr ys \<Rightarrow> Inr (y # ys)))"

text \<open>\<^verbatim>\<open>ep_rewards.get(agent_id, 0)\<close>: only a mapping has \<^verbatim>\<open>get\<close>.\<close>

fun get_or_zero :: "nat \<Rightarrow> pyv \<Rightarrow> error + pyv" where
  "get_or_zero agent_id (PDict kvs) =
     Inr (case map_of kvs agent_id of None \<Rightarrow> PNum 0 | Some v \<Rightarrow> v)"
| "get_or_zero agent_id v = Inl AttributeError"

text \<open>
  What \<^verbatim>\<open>list.extend(v)\<close> appends: the elements of a list, the keys of a mapping; a
  number and \<^verbatim>\<open>None\<close> are not iterable.
\<close>

fun iter_values :: "pyv \<Rightarrow> error + pyv list" where
  "iter_values (PList ys) = Inr ys"
| "iter_values (PDict kvs) = Inr (map (\<lambda>kv. PNum (real (fst kv))) kvs)"
| "iter_values v = Inl TypeError"

text \<open>
  The body of \<^verbatim>\<open>for ep in episodes: if key in ep and agent_id in ep[key]:
  agent_data.extend(ep[key][agent_id])\<close> for one episode: the values it appends.
  \<^verbatim>\<open>agent_id in v\<close> is key membership for a mapping and element membership for a list;
  \<^verbatim>\<open>v[agent_id]\<close> on a list is indexing.
\<close>

definition agent_values :: "string \<Rightarrow> nat \<Rightarrow> episode \<Rightarrow> error + pyv list" where
  "agent_values key agent_id ep =
     (case map_of ep key of
        None \<Rightarrow> Inr []
      | Some (PDict kvs) \<Rightarrow>
          (case map_of kvs agent_id of None \<Rightarrow> Inr [] | Some v \<Rightarrow> iter_values v)
      | Some (PList xs) \<Rightarrow>
          if PNum (real agent_id) \<in> set xs
          then (if agent_id < length xs then iter_values (xs ! agent_id) else Inl IndexError)
          else Inr []
      | Some v \<Rightarrow> Inl TypeError)"

text \<open>
  The body of \<^verbatim>\<open>for ep in episodes: if key in ep: aggregated_list.extend(ep[key])\<close> for
  one episode.
\<close>

definition list_values :: "string \<Rightarrow> episode \<Rightarrow> error + pyv list" where
  "list_values key ep = (case map_of ep key of None \<Rightarrow> Inr [] | Some v \<Rightarrow> iter_values v)"

text \<open>
  One iteration of \<^verbatim>\<open>for key, value in first_episode.items()\<close> (lines 439--476): the
  value assigned to \<^verbatim>\<open>aggregated[key]\<close>, or \<open>None\<close> when nothing is assigned.
\<close>

definition aggregate_key ::
  "(pyv list \<Rightarrow> error + pyv) \<Rightarrow> episode list \<Rightarrow> string \<Rightarrow> pyv \<Rightarrow> error + pyv option" where
  "aggregate_key other episodes key val =
     (if key = ''episode_time''
      then (case np_mean other (map (\<lambda>ep. dict_get ep ''episode_time'' (PNum 0)) episodes) of
              Inl e \<Rightarrow> Inl e
            | Inr m \<Rightarrow> Inr (Some m))
      else if key = ''total_rewards''
      then (let all_rewards = map (\<lambda>ep. dict_get ep ''total_rewards'' (PDict [])) episodes
            in case all_rewards of
                 [] \<Rightarrow> Inr None
               | r0 # rs \<Rightarrow>
                   if truthy r0
                   then (case r0 of
                           PDict kvs \<Rightarrow>
                             (case collect
                                     (\<lambda>agent_id.
                                        case collect (get_or_zero agent_id) all_rewards of
                                          Inl e \<Rightarrow> Inl e
                                        | Inr rewards \<Rightarrow>
                                            (case np_mean other rewards of
                                               Inl e \<Rightarrow> Inl e
                                             | Inr m \<Rightarrow> Inr (agent_id, m)))
                                     (map fst kvs) of
                                Inl e \<Rightarrow> Inl e
                              | Inr d \<Rightarrow> Inr (Some (PDict d)))
                         | v \<Rightarrow> Inl AttributeError)
                   else Inr None)
      else if is_dict_of_lists val
      then (case val of
              PDict kvs \<Rightarrow>
                (case collect
                        (\<lambda>agent_id.
                           case collect (agent_values key agent_id) episodes of
                             Inl e \<Rightarrow> Inl e
                           | Inr datas \<Rightarrow> Inr (agent_id, PList (concat datas)))
                        (map fst kvs) of
                   Inl e \<Rightarrow> Inl e
                 | Inr d \<Rightarrow> Inr (Some (PDict d)))
            | v \<Rightarrow> Inr None)
      else if is_list val
      then (case collect (list_values key) episodes of
              Inl e \<Rightarrow> Inl e
            | Inr datas \<Rightarrow> Inr (Some (PList (concat datas))))
      else Inr None)"

text \<open>The loop over the items of the first episode; an exception ends it.\<close>

fun aggregate_items ::
  "(pyv list \<Rightarrow> error + pyv) \<Rightarrow> episode list \<Rightarrow> episode \<Rightarrow> error + episode" where
  "aggregate_items other episodes [] = Inr []"
| "aggregate_items other episodes ((key, val) # rest) =
     (case aggregate_key other episodes key val of
        Inl e \<Rightarrow> Inl e
      | Inr r \<Rightarrow>
          (case aggregate_items other episodes rest of
             Inl e \<Rightarrow> Inl e
           | Inr agg \<Rightarrow> Inr (case r of None \<Rightarrow> agg | Some v \<Rightarrow> (key, v) # agg)))"

text \<open>
  \<^verbatim>\<open>_aggregate_episode_results\<close> on \<^verbatim>\<open>episodic_metrics["episodes"]\<close>: the empty mapping
  for no episodes, otherwise one pass over the items of the first episode.
\<close>

definition aggregate_episode_results ::
  "(pyv list \<Rightarrow> error + pyv) \<Rightarrow> episode list \<Rightarrow> error + episode" where
  "aggregate_episode_results other episodes =
     (case episodes of
        [] \<Rightarrow> Inr []
      | first_episode # rest \<Rightarrow> aggregate_items other episodes first_episode)"


subsection \<open>The merge the specification describes\<close>

text \<open>The arithmetic mean of a list of numbers.\<close>

definition mean :: "real list \<Rightarrow> real" where
  "mean xs = sum_list xs / real (length xs)"

text \<open>
  What an episode contributes under a key: its episode time, the total reward of an
  agent, the list recorded for an agent under a key, and the list recorded under a key.
  An episode that has no such entry contributes 0 or the empty list.
\<close>

definition episode_time_of :: "episode \<Rightarrow> real" where
  "episode_time_of ep = (case map_of ep ''episode_time'' of Some (PNum t) \<Rightarrow> t | _ \<Rightarrow> 0)"

definition total_reward_of :: "nat \<Rightarrow> episode \<Rightarrow> real" where
  "total_reward_of agent_id ep =
     (case map_of ep ''total_rewards'' of
        Some (PDict d) \<Rightarrow> (case map_of d agent_id of Some (PNum x) \<Rightarrow> x | _ \<Rightarrow> 0)
      | _ \<Rightarrow> 0)"

definition agent_list :: "string \<Rightarrow> nat \<Rightarrow> episode \<Rightarrow> pyv list" where
  "agent_list key agent_id ep =
     (case map_of ep key of
        Some (PDict d) \<Rightarrow> (case map_of d agent_id of Some (PList xs) \<Rightarrow> xs | _ \<Rightarrow> [])
      | _ \<Rightarrow> [])"

definition flat_list :: "string \<Rightarrow> episode \<Rightarrow> pyv list" where
  "flat_list key ep = (case map_of ep key of Some (PList xs) \<Rightarrow> xs | _ \<Rightarrow> [])"

text \<open>The keys of a mapping, in insertion order.\<close>

fun dict_keys :: "pyv \<Rightarrow> nat list" where
  "dict_keys (PDict kvs) = map fst kvs"
| "dict_keys v = []"

text \<open>
  The table of section 4.5 of the specification, for an item \<open>(key, val)\<close> of the first
  episode: \<^verbatim>\<open>episode_time\<close> is averaged over the episodes, \<^verbatim>\<open>total_rewards\<close> is
  averaged agent by agent, a mapping from agents to lists is concatenated agent by agent
  and a list is concatenated, both in the order of the episodes, and anything else is
  left out (\<open>None\<close>).
\<close>

definition spec_merge :: "episode list \<Rightarrow> string \<Rightarrow> pyv \<Rightarrow> pyv option" where
  "spec_merge episodes key val =
     (if key = ''episode_time'' then Some (PNum (mean (map episode_time_of episodes)))
      else if key = ''total_rewards''
      then Some (PDict (map (\<lambda>a. (a, PNum (mean (map (total_reward_of a) episodes))))
                         (dict_keys val)))
      else if is_dict_of_lists val
      then Some (PDict (map (\<lambda>a. (a, PList (concat (map (agent_list key a) episodes))))
                         (dict_keys val)))
      else if is_list val then Some (PList (concat (map (flat_list key) episodes)))
      else None)"

text \<open>
  An episode record agrees in shape with an item \<open>(key, val)\<close> of the first episode:
  it has a number under \<^verbatim>\<open>episode_time\<close>; under \<^verbatim>\<open>total_rewards\<close> it has a mapping
  with a number for every agent of the first episode, of which there is at least one;
  under the key of a mapping from agents to lists it has nothing, or a mapping that
  gives every agent of the first episode a list or nothing; under the key of a list it
  has nothing or a list.
\<close>

definition shaped :: "episode \<Rightarrow> string \<Rightarrow> pyv \<Rightarrow> bool" where
  "shaped ep key val =
     (if key = ''episode_time''
      then (case map_of ep key of Some (PNum t) \<Rightarrow> True | _ \<Rightarrow> False)
      else if key = ''total_rewards''
      then dict_keys val \<noteq> [] \<and>
           (case map_of ep key of
              Some (PDict d) \<Rightarrow>
                list_all (\<lambda>a. case map_of d a of Some (PNum x) \<Rightarrow> True | _ \<Rightarrow> False)
                  (dict_keys val)
            | _ \<Rightarrow> False)
      else if is_dict_of_lists val
      then (case map_of ep key of
              None \<Rightarrow> True
            | Some (PDict d) \<Rightarrow>
                list_all (\<lambda>a. case map_of d a of
                                 None \<Rightarrow> True | Some (PList xs) \<Rightarrow> True | _ \<Rightarrow> False)
                  (dict_keys val)
            | _ \<Rightarrow> False)
      else if is_list val
      then (case map_of ep key of None \<Rightarrow> True | Some (PList xs) \<Rightarrow> True | _ \<Rightarrow> False)
      else True)"

text \<open>
  The items of the first episode for which the code writes an entry of the aggregate.
\<close>

definition key_kept :: "string \<Rightarrow> pyv \<Rightarrow> bool" where
  "key_kept key val =
     (if key = ''episode_time'' then True
      else if key = ''total_rewards'' then truthy val
      else is_dict_of_lists val \<or> is_list val)"

text \<open>
  The total rewards of an episode are absent, or a mapping in which the agent has no
  entry or a number.
\<close>

definition rewards_numeric :: "nat \<Rightarrow> episode \<Rightarrow> bool" where
  "rewards_numeric agent_id ep =
     (case map_of ep ''total_rewards'' of
        None \<Rightarrow> True
      | Some (PDict d) \<Rightarrow> (case map_of d agent_id of None \<Rightarrow> True | Some (PNum x) \<Rightarrow> True | _ \<Rightarrow> False)
      | _ \<Rightarrow> False)"

section \<open>Reading the call log\<close>

fun is_sample_or_update :: "event \<Rightarrow> bool" where
  "is_sample_or_update (Sample a b) = True"
| "is_sample_or_update (Update a b) = True"
| "is_sample_or_update e = False"

fun is_infer_latent :: "event \<Rightarrow> bool" where
  "is_infer_latent (InferLatent a g s n r f) = True"
| "is_infer_latent e = False"

fun is_policy :: "event \<Rightarrow> bool" where
  "is_policy (Policy a g b l) = True"
| "is_policy e = False"

text \<open>The actions of the transitions handed to the buffers.\<close>

fun stored_actions :: "event list \<Rightarrow> real list" where
  "stored_actions [] = []"
| "stored_actions (StoreTransition a tr # es) = t_action tr # stored_actions es"
| "stored_actions (e # es) = stored_actions es"

fun is_register :: "event \<Rightarrow> bool" where
  "is_register (RegisterTaskBelief a) = True"
| "is_register (RegisterTaskPolicy a) = True"
| "is_register e = False"

fun is_tracker_call :: "event \<Rightarrow> bool" where
  "is_tracker_call (RegisterTaskBelief a) = True"
| "is_tracker_call (RegisterTaskPolicy a) = True"
| "is_tracker_call (SetTaskBelief a c) = True"
| "is_tracker_call (SetTaskPolicy a c) = True"
| "is_tracker_call e = False"

section \<open>Sequences of bookkeeping calls on one agent\<close>

text \<open>
  The two places where the trainer touches the continual-learning state of an agent:
  \<open>EpisodeInit c\<close> is \<^verbatim>\<open>_setup_si_for_training\<close> and \<open>EpisodeDone c\<close> is
  \<^verbatim>\<open>_handle_si_state_changes\<close>, each with \<^verbatim>\<open>env.true_state = c\<close> and with
  \<^verbatim>\<open>args.use_si\<close> set. \<open>si_run\<close> applies a sequence of them to one and the same agent
  object and logs, call by call, the tracker methods invoked.
\<close>

datatype si_call = EpisodeInit nat | EpisodeDone nat

fun si_apply :: "nat \<Rightarrow> si_call \<Rightarrow> 'w agent \<Rightarrow> error + ('w agent \<times> event list)" where
  "si_apply agent_id (EpisodeInit c) ag = Inr (setup_si_agent c agent_id ag)"
| "si_apply agent_id (EpisodeDone c) ag = handle_si_agent c agent_id ag"

fun si_run ::
  "nat \<Rightarrow> si_call list \<Rightarrow> 'w agent \<Rightarrow> error + ('w agent \<times> (si_call \<times> event list) list)" where
  "si_run agent_id [] ag = Inr (ag, [])"
| "si_run agent_id (c # cs) ag =
     (case si_apply agent_id c ag of
        Inl e \<Rightarrow> Inl e
      | Inr (ag', evs) \<Rightarrow>
          (case si_run agent_id cs ag' of
             Inl e \<Rightarrow> Inl e
           | Inr (ag'', trail) \<Rightarrow> Inr (ag'', (c, evs) # trail)))"

text \<open>The true-state values whose handling at an episode end registered a task.\<close>

fun registered_states :: "(si_call \<times> event list) list \<Rightarrow> nat list" where
  "registered_states [] = []"
| "registered_states ((EpisodeDone c, evs) # trail) =
     (if list_ex is_register evs then c # registered_states trail else registered_states trail)"
| "registered_states ((EpisodeInit c, evs) # trail) = registered_states trail"

text \<open>The calls logged at the episode starts.\<close>

fun init_calls :: "(si_call \<times> event list) list \<Rightarrow> event list" where
  "init_calls [] = []"
| "init_calls ((EpisodeInit c, evs) # trail) = evs @ init_calls trail"
| "init_calls ((EpisodeDone c, evs) # trail) = init_calls trail"

section \<open>Concrete objects for the evaluations below\<close>

text \<open>
  An encoder that keeps the signal, an agent whose belief becomes the encoded signal it
  observes and whose latent becomes the fourth argument of \<^verbatim>\<open>infer_latent\<close>, and a
  policy that always allocates one half.
\<close>

definition ex_caps :: "unit caps" where
  "ex_caps = \<lparr>encode_observation = (\<lambda>s nb ca cs. ([Fin s], [])),
     observe = (\<lambda>ag s a. (ag\<lparr>current_belief := s\<rparr>, s, s)),
     infer_latent = (\<lambda>ag s a r ns. (ag\<lparr>current_latent := ns\<rparr>, ns)),
     get_belief_distribution = (\<lambda>ag. current_belief ag),
     get_latent_distribution_params = (\<lambda>ag. ([], [])),
     policy = (\<lambda>ag b l. ([], 1 / 2)),
     agent_update = (\<lambda>ag batch. ag),
     draw = (\<lambda>xs b. take (nat b) xs)\<rparr>"

definition ex_agent :: "unit agent" where
  "ex_agent = \<lparr>current_belief = [], current_latent = [],
     current_belief_distribution = None, continuous_actions = Some True,
     policy_has_forward = True, use_si = Some True, current_true_state = None,
     seen_true_states = Some {}, has_belief_si = True, has_policy_si = True,
     path_integrals_calculated = False, state_belief_si_trackers = Some {},
     state_policy_si_trackers = Some {}, internals = ()\<rparr>"

definition ex_args :: args where
  "ex_args = \<lparr>args_continuous_actions = True, args_use_si = True, batch_size = 0,
     update_interval = 1, buffer_capacity = 3, seed = 0\<rparr>"

text \<open>An observation of the strategic-experimentation environment.\<close>

definition se_obs :: "real \<Rightarrow> real option \<Rightarrow> obs_data" where
  "se_obs b inc = \<lparr>signal = None, background_signal = Some b, background_increment = inc,
     neighbor_actions = None, neighbor_allocations = Some None\<rparr>"

definition ex_buffer :: replay_buffer where
  "ex_buffer = \<lparr>capacity = 3, items = []\<rparr>"

text \<open>A transition stored by an earlier step, and a buffer that holds it.\<close>

definition ex_transition :: transition where
  "ex_transition = \<lparr>t_signal = [Fin 0], t_neighbor_actions = [], t_belief = [], t_latent = [],
     t_action = 1 / 4, t_reward = PyFloat 0, t_next_signal = [Fin 1],
     t_next_neighbor_actions = [], t_next_belief = [Fin 0], t_next_latent = [Fin 1],
     t_mean = [], t_logvar = []\<rparr>"

definition ex_buffer1 :: replay_buffer where
  "ex_buffer1 = \<lparr>capacity = 3, items = [ex_transition]\<rparr>"

definition ex_info :: "(unit, unit) info" where
  "ex_info = \<lparr>allocations = Some [0 \<mapsto> 1], policy_means = None, policy_stds = None,
     agent_beliefs = None, env_params = None, info_rest = ()\<rparr>"

text \<open>
  A strategic environment with one agent whose every step ends the episode, in true
  state 0; the agents are built by \<open>mk\<close>.
\<close>

definition ex_world :: "(nat \<Rightarrow> unit agent) \<Rightarrow> (unit, unit, unit, unit) world" where
  "ex_world mk = \<lparr>
     select_agent_actions = (\<lambda>ags. (ags, [0 \<mapsto> 1], [0 \<mapsto> [7 / 10, 3 / 10]])),
     env_initialize = (\<lambda>e. (e, [0 \<mapsto> se_obs 5 (Some 1)])),
     env_step = (\<lambda>e acts probs.
        (e, [0 \<mapsto> se_obs 7 (Some 2)], [(0, Scalar (PyFloat (3 / 2)))], True, ex_info)),
     true_state = (\<lambda>e. 0),
     has_safe_payoff = True,
     num_agents = 1,
     env_params_of = (\<lambda>e. ()),
     new_agent = mk,
     reset_agent_internal_states = (\<lambda>ags. ags),
     update_total_rewards = (\<lambda>tot rw. tot),
     setup_random_seeds = (\<lambda>sd e. e)\<rparr>"

definition ex_sim :: "unit agent \<Rightarrow> (unit, unit, unit, unit) sim" where
  "ex_sim ag = \<lparr>sim_env = (), sim_agents = [(0, ag)], sim_replay_buffers = [0 \<mapsto> ex_buffer],
     sim_observations = [0 \<mapsto> se_obs 5 (Some 1)], sim_total_rewards = [0],
     sim_metrics = [], sim_events = []\<rparr>"

text \<open>Three evaluation episodes; the key \<^verbatim>\<open>late\<close> appears in the second only.\<close>

definition ex_episodes :: "episode list" where
  "ex_episodes =
     [[(''episode_time'', PNum 1), (''total_rewards'', PDict [(0, PNum 2), (1, PNum 3)]),
       (''belief_distributions'', PDict [(0, PList [PNum 1, PNum 2])]),
       (''true_states'', PList [PNum 0]), (''final_observations'', PNone)],
      [(''episode_time'', PNum 2), (''total_rewards'', PDict [(0, PNum 4)]),
       (''belief_distributions'', PDict [(0, PList [PNum 3])]),
       (''true_states'', PList [PNum 1]), (''late'', PList [PNum 9])],
      [(''episode_time'', PNum 6), (''total_rewards'', PDict [(0, PNum 6), (1, PNum 3)]),
       (''belief_distributions'', PDict [(0, PList [PNum 4, PNum 5])]),
       (''true_states'', PList [PNum 0]), (''final_observations'', PNone)]]"


text \<open>Three evaluation episodes of one shape.\<close>

definition ex_eval_episodes :: "episode list" where
  "ex_eval_episodes =
     [[(''episode_time'', PNum 1), (''total_rewards'', PDict [(0, PNum 2), (1, PNum 3)]),
       (''belief_distributions'', PDict [(0, PList [PNum 1, PNum 2])]),
       (''true_states'', PList [PNum 0]), (''final_observations'', PNone)],
      [(''episode_time'', PNum 2), (''total_rewards'', PDict [(0, PNum 4), (1, PNum 3)]),
       (''belief_distributions'', PDict [(0, PList [PNum 3])]),
       (''true_states'', PList [PNum 1]), (''final_observations'', PNone)],
      [(''episode_time'', PNum 6), (''total_rewards'', PDict [(0, PNum 6), (1, PNum 3)]),
       (''belief_distributions'', PDict [(0, PList [PNum 4, PNum 5])]),
       (''true_states'', PList [PNum 0]), (''final_observations'', PNone)]]"

section \<open>Properties of the per-agent update\<close>

lemmas update_defs =
  update_agent_states_def update_agent_def observe_and_infer_def extract_signals_def
  store_and_train_def store_transition_in_buffer_def buffer_len_def sample_def

lemmas ex_defs =
  ex_world_def ex_caps_def ex_args_def ex_agent_def se_obs_def ex_info_def ex_sim_def
  ex_buffer_def ex_buffer1_def




text \<open>
  The value under \<^verbatim>\<open>background_signal\<close> is never read: whatever the two records hold
  there, the decoded signals are the same.
\<close>

lemma background_signal_not_read:
  "signal obs = None \<Longrightarrow>
     extract_signals locals (obs\<lparr>background_signal := Some b\<rparr>) (next_obs\<lparr>background_signal := x\<rparr>)
       = extract_signals locals (obs\<lparr>background_signal := Some b'\<rparr>) (next_obs\<lparr>background_signal := x'\<rparr>)"
  by (simp add: extract_signals_def split: option.splits)

text \<open>The calls made up to the append of the belief distribution.\<close>

lemma observe_and_infer_events:
  assumes "observe_and_infer cp ar training grad observations next_observations rewards locals
             agent_id ag = Inr (ag2, lcl, evs, tr0)"
  shows "filter is_sample_or_update evs = [] \<and> filter is_policy evs = []
           \<and> length (filter is_infer_latent evs) = 1 \<and> stored_actions evs = []"
  using assms
  by (auto simp: observe_and_infer_def Let_def split: option.splits sum.splits prod.splits)

lemma observe_and_infer_infer:
  assumes "observations agent_id = Some obs" "next_observations agent_id = Some next_obs"
    "extract_signals locals obs next_obs = Inr (sg, next_sg, nb, next_nb)"
    "rewards agent_id = Some rw" "latent_reward rw = Inr rr"
    "observe_and_infer cp ar training grad observations next_observations rewards locals
       agent_id ag = Inr (ag2, lcl, evs, tr0)"
  shows "filter is_infer_latent evs =
     [InferLatent agent_id (training \<and> grad)
        (fst (encode_observation cp sg nb (args_continuous_actions ar) (background_increment obs \<noteq> None)))
        (snd (encode_observation cp sg nb (args_continuous_actions ar) (background_increment obs \<noteq> None)))
        rr
        (if training
         then fst (encode_observation cp next_sg next_nb (args_continuous_actions ar)
                     (background_increment obs \<noteq> None))
         else fst (encode_observation cp sg nb (args_continuous_actions ar)
                     (background_increment obs \<noteq> None)))]"
  using assms
  by (auto simp: observe_and_infer_def Let_def split: option.splits sum.splits prod.splits)

lemma stored_actions_append:
  "stored_actions (xs @ ys) = stored_actions xs @ stored_actions ys"
  by (induction xs rule: stored_actions.induct) simp_all

text \<open>The calls made when the transition is stored, after those made before.\<close>

lemma store_and_train_events:
  assumes "store_and_train cp ar grad step actions rw rbs buf agent_id ag lcl evs tr0 = Inr r"
  shows "\<exists>tr. as_buffers r agent_id = Some (store_transition_in_buffer buf tr)
     \<and> t_action tr = (if args_continuous_actions ar \<and> continuous_actions ag = Some True
                      then snd (policy cp ag (current_belief ag) (current_latent ag))
                      else the (actions agent_id))
     \<and> as_events r = evs
         @ (if args_continuous_actions ar \<and> continuous_actions ag = Some True
            then [Policy agent_id grad (current_belief ag) (current_latent ag)] else [])
         @ [StoreTransition agent_id tr]
         @ (if buffer_len (store_transition_in_buffer buf tr) > batch_size ar
                 \<and> step mod update_interval ar = 0
            then [Sample agent_id (batch_size ar),
                  Update agent_id
                    (draw cp (items (store_transition_in_buffer buf tr)) (batch_size ar))]
            else [])"
  using assms
  by (auto simp: store_and_train_def Let_def sample_def
           split: option.splits sum.splits prod.splits if_splits)





subsection \<open>A missing increment is fatal\<close>



subsection \<open>When the networks are updated\<close>




subsection \<open>Scalar and structured rewards\<close>

text \<open>
  A \<^verbatim>\<open>float\<close> reward and the mapping that holds it under \<^verbatim>\<open>total\<close> are read alike at
  the three places that consume a reward.
\<close>

lemma float_reward_uniform:
  "latent_reward (Scalar (PyFloat x)) = latent_reward (Struct [''total'' \<mapsto> PyFloat x])
   \<and> reward_value (Scalar (PyFloat x)) = reward_value (Struct [''total'' \<mapsto> PyFloat x])
   \<and> accumulate_reward tot i (Scalar (PyFloat x))
       = accumulate_reward tot i (Struct [''total'' \<mapsto> PyFloat x])"
  by (simp add: accumulate_reward_def)

text \<open>
  Claim C4. A bare scalar \<open>r\<close> and the mapping \<^verbatim>\<open>{"total": r}\<close> should be consumed alike
  for every numeric scalar. At the \<^verbatim>\<open>int\<close> reward \<open>1\<close> they are not: the argument of
  \<^verbatim>\<open>infer_latent\<close> tests \<^verbatim>\<open>isinstance(..., float)\<close>, so the bare \<^verbatim>\<open>int\<close> is subscripted
  and the update raises \<^verbatim>\<open>TypeError\<close>, in training and in evaluation, whereas the mapping
  is read as \<open>1\<close>, passed to \<^verbatim>\<open>infer_latent\<close> and stored. The stored reward and the
  accumulation of \<^verbatim>\<open>quick_evaluate\<close> test \<^verbatim>\<open>isinstance(..., dict)\<close> and read both forms
  as \<open>1\<close>.
\<close>

theorem int_reward_breaks_latent_inference:
  "update_agent ex_caps ex_args True True 0 [0 \<mapsto> se_obs 5 (Some 1)] [0 \<mapsto> se_obs 7 (Some 2)]
      [0 \<mapsto> 1] [0 \<mapsto> Scalar (PyInt 1)] None [0 \<mapsto> ex_buffer] 0 ex_agent = Inl TypeError
   \<and> update_agent ex_caps ex_args False True 0 [0 \<mapsto> se_obs 5 (Some 1)] [0 \<mapsto> se_obs 7 (Some 2)]
      [0 \<mapsto> 1] [0 \<mapsto> Scalar (PyInt 1)] None [0 \<mapsto> ex_buffer] 0 ex_agent = Inl TypeError
   \<and> map_sum id (\<lambda>r. filter is_infer_latent (as_events r) @ [last (as_events r)])
       (update_agent ex_caps (ex_args\<lparr>batch_size := 5\<rparr>) True True 0 [0 \<mapsto> se_obs 5 (Some 1)] [0 \<mapsto> se_obs 7 (Some 2)]
         [0 \<mapsto> 1] [0 \<mapsto> Struct [''total'' \<mapsto> PyInt 1]] None [0 \<mapsto> ex_buffer] 0 ex_agent)
       = Inr [InferLatent 0 True [Fin 1] [] (PyInt 1) [Fin 2],
              StoreTransition 0 \<lparr>t_signal = [Fin 1], t_neighbor_actions = [], t_belief = [],
                 t_latent = [], t_action = 1 / 2, t_reward = PyInt 1, t_next_signal = [Fin 2],
                 t_next_neighbor_actions = [], t_next_belief = [Fin 1], t_next_latent = [Fin 2],
                 t_mean = [], t_logvar = []\<rparr>]
   \<and> latent_reward (Scalar (PyInt 1)) = Inl TypeError
   \<and> latent_reward (Struct [''total'' \<mapsto> PyInt 1]) = Inr (PyInt 1)
   \<and> reward_value (Scalar (PyInt 1)) = Inr (PyInt 1)
   \<and> reward_value (Struct [''total'' \<mapsto> PyInt 1]) = Inr (PyInt 1)
   \<and> accumulate_reward [0] 0 (Scalar (PyInt 1)) = Inr [1]
   \<and> accumulate_reward [0] 0 (Struct [''total'' \<mapsto> PyInt 1]) = Inr [1]"
  by (simp add: update_defs ex_defs Let_def accumulate_reward_def)

subsection \<open>The action stored with continuous actions\<close>

text \<open>
  In training with continuous actions the policy of the example agent is queried again
  with the autograd mode of the caller, here with gradients recorded: no
  \<^verbatim>\<open>torch.no_grad()\<close> is opened around the call of line 887.
\<close>

theorem requery_records_gradients:
  "map_sum id (\<lambda>r. filter is_policy (as_events r))
     (update_agent ex_caps ex_args True True 0 [0 \<mapsto> se_obs 5 (Some 1)] [0 \<mapsto> se_obs 7 (Some 2)]
        [0 \<mapsto> 1] [0 \<mapsto> Scalar (PyFloat 1)] None [0 \<mapsto> ex_buffer] 0 ex_agent)
   = Inr [Policy 0 True [Fin 1] [Fin 2]]"
  by (simp add: update_defs ex_defs Let_def)

text \<open>
  Claim C7, amended. In a completed training step with continuous actions (of the run
  and of the agent) for an agent with a replay buffer, the policy is queried exactly once
  more, after \<^verbatim>\<open>observe\<close> and \<^verbatim>\<open>infer_latent\<close>, on the belief and latent the agent then
  holds; the action of the stored transition is the allocation this query returns, not
  the action sent to the environment. The query runs in the autograd mode of the caller.
\<close>

theorem stored_action_is_requeried_allocation:
  assumes "training" "args_continuous_actions ar" "replay_buffers agent_id = Some buf"
    "observe_and_infer cp ar training grad observations next_observations rewards locals
       agent_id ag = Inr (ag2, lcl, evs, tr0)"
    "continuous_actions ag2 = Some True"
    "update_agent cp ar training grad step observations next_observations actions rewards
       locals replay_buffers agent_id ag = Inr r"
  shows "\<exists>tr rest.
       as_events r = evs @ [Policy agent_id grad (current_belief ag2) (current_latent ag2),
                            StoreTransition agent_id tr] @ rest
     \<and> t_action tr = snd (policy cp ag2 (current_belief ag2) (current_latent ag2))
     \<and> stored_actions (as_events r)
         = [snd (policy cp ag2 (current_belief ag2) (current_latent ag2))]
     \<and> filter is_policy (as_events r)
         = [Policy agent_id grad (current_belief ag2) (current_latent ag2)]"
proof -
  from assms obtain rw where
    st: "store_and_train cp ar grad step actions rw replay_buffers buf agent_id ag2 lcl evs
           tr0 = Inr r"
    by (auto simp: update_agent_def split: option.splits sum.splits prod.splits)
  from observe_and_infer_events[OF assms(4)]
  have ev: "filter is_policy evs = []" "stored_actions evs = []" by simp_all
  from store_and_train_events[OF st] assms(2,5) ev show ?thesis
    by (auto simp: stored_actions_append)
qed

theorem stored_action_is_requeried_allocation_witness:
  "\<exists>r. update_agent ex_caps ex_args True False 0 [0 \<mapsto> se_obs 5 (Some 1)]
          [0 \<mapsto> se_obs 7 (Some 2)] [0 \<mapsto> 1] [0 \<mapsto> Scalar (PyFloat 1)] None [0 \<mapsto> ex_buffer] 0
          ex_agent = Inr r
       \<and> stored_actions (as_events r) = [1 / 2]
       \<and> filter is_policy (as_events r) = [Policy 0 False [Fin 1] [Fin 2]]"
proof -
  let ?obs = "[0 \<mapsto> se_obs 5 (Some 1)]" and ?nobs = "[0 \<mapsto> se_obs 7 (Some 2)]"
  let ?rw = "[(0::nat) \<mapsto> Scalar (PyFloat 1)]"
  have "\<exists>ag2 lcl evs tr0.
          observe_and_infer ex_caps ex_args True False ?obs ?nobs ?rw None 0 ex_agent
            = Inr (ag2, lcl, evs, tr0)
          \<and> continuous_actions ag2 = Some True
          \<and> current_belief ag2 = [Fin 1] \<and> current_latent ag2 = [Fin 2]"
    by (simp add: update_defs ex_defs Let_def)
  then obtain ag2 lcl evs tr0 where
    oi: "observe_and_infer ex_caps ex_args True False ?obs ?nobs ?rw None 0 ex_agent
           = Inr (ag2, lcl, evs, tr0)"
    and ca: "continuous_actions ag2 = Some True"
    and bl: "current_belief ag2 = [Fin 1]" "current_latent ag2 = [Fin 2]"
    by blast
  have "\<exists>r. update_agent ex_caps ex_args True False 0 ?obs ?nobs [0 \<mapsto> 1] ?rw None
              [0 \<mapsto> ex_buffer] 0 ex_agent = Inr r"
    by (simp add: update_defs ex_defs Let_def)
  then obtain r where
    r: "update_agent ex_caps ex_args True False 0 ?obs ?nobs [0 \<mapsto> 1] ?rw None
          [0 \<mapsto> ex_buffer] 0 ex_agent = Inr r"
    by blast
  have a: "args_continuous_actions ex_args" by (simp add: ex_args_def)
  have h: "[0 \<mapsto> ex_buffer] (0::nat) = Some ex_buffer" by simp
  from stored_action_is_requeried_allocation[OF TrueI a h oi ca r] bl
  have "stored_actions (as_events r) = [1 / 2]
       \<and> filter is_policy (as_events r) = [Policy 0 False [Fin 1] [Fin 2]]"
    by (auto simp: ex_caps_def)
  with r show ?thesis by blast
qed

subsection \<open>The arguments of \<^verbatim>\<open>infer_latent\<close>\<close>

text \<open>
  In evaluation the fourth argument of \<^verbatim>\<open>infer_latent\<close> is the encoding of the current
  signal (\<open>[Fin 1]\<close>), not that of the next one (\<open>[Fin 2]\<close>).
\<close>

theorem evaluation_infers_from_current_signal:
  "map_sum id (\<lambda>r. filter is_infer_latent (as_events r))
     (update_agent ex_caps ex_args False True 0 [0 \<mapsto> se_obs 5 (Some 1)] [0 \<mapsto> se_obs 7 (Some 2)]
        [0 \<mapsto> 1] [0 \<mapsto> Scalar (PyFloat 1)] None [0 \<mapsto> ex_buffer] 0 ex_agent)
   = Inr [InferLatent 0 False [Fin 1] [] (PyFloat 1) [Fin 1]]
   \<and> fst (encode_observation ex_caps 2 Map.empty True True) = [Fin 2]"
  by (simp add: update_defs ex_defs Let_def)

text \<open>
  Claim C9, amended. In every completed per-agent update, in training and in evaluation,
  \<^verbatim>\<open>infer_latent\<close> is called exactly once, with the encoded current signal, the encoded
  current neighbour actions and the reward of the step; its fourth argument is the
  encoded next signal in training and the encoded current signal in evaluation.
\<close>

theorem infer_latent_called_once:
  assumes "observations agent_id = Some obs" "next_observations agent_id = Some next_obs"
    "extract_signals locals obs next_obs = Inr (sg, next_sg, nb, next_nb)"
    "rewards agent_id = Some rw" "latent_reward rw = Inr rr"
    "update_agent cp ar training grad step observations next_observations actions rewards
       locals replay_buffers agent_id ag = Inr r"
  shows "filter is_infer_latent (as_events r) =
     [InferLatent agent_id (training \<and> grad)
        (fst (encode_observation cp sg nb (args_continuous_actions ar) (background_increment obs \<noteq> None)))
        (snd (encode_observation cp sg nb (args_continuous_actions ar) (background_increment obs \<noteq> None)))
        rr
        (if training
         then fst (encode_observation cp next_sg next_nb (args_continuous_actions ar)
                     (background_increment obs \<noteq> None))
         else fst (encode_observation cp sg nb (args_continuous_actions ar)
                     (background_increment obs \<noteq> None)))]"
proof -
  from assms(6) obtain ag2 lcl evs tr0 where
    oi: "observe_and_infer cp ar training grad observations next_observations rewards locals
           agent_id ag = Inr (ag2, lcl, evs, tr0)"
    by (auto simp: update_agent_def split: option.splits sum.splits prod.splits)
  note inf = observe_and_infer_infer[OF assms(1-5) oi]
  show ?thesis
  proof (cases "if training then replay_buffers agent_id else None")
    case None
    with assms(6) oi inf show ?thesis
      by (auto simp: update_agent_def split: option.splits sum.splits prod.splits)
  next
    case (Some buf)
    with assms(6) oi assms(4)
    have st: "store_and_train cp ar grad step actions rw replay_buffers buf agent_id ag2 lcl
                evs tr0 = Inr r"
      by (auto simp: update_agent_def split: option.splits sum.splits prod.splits if_splits)
    from store_and_train_events[OF st] inf show ?thesis by auto
  qed
qed

theorem infer_latent_called_once_witness:
  "\<exists>r. update_agent ex_caps ex_args True True 0 [0 \<mapsto> se_obs 5 (Some 1)]
          [0 \<mapsto> se_obs 7 (Some 2)] [0 \<mapsto> 1] [0 \<mapsto> Scalar (PyFloat 1)] None [0 \<mapsto> ex_buffer] 0
          ex_agent = Inr r
       \<and> filter is_infer_latent (as_events r)
           = [InferLatent 0 True [Fin 1] [] (PyFloat 1) [Fin 2]]"
proof -
  let ?obs = "[0 \<mapsto> se_obs 5 (Some 1)]" and ?nobs = "[0 \<mapsto> se_obs 7 (Some 2)]"
  let ?rw = "[(0::nat) \<mapsto> Scalar (PyFloat 1)]"
  have "\<exists>r. update_agent ex_caps ex_args True True 0 ?obs ?nobs [0 \<mapsto> 1] ?rw None
              [0 \<mapsto> ex_buffer] 0 ex_agent = Inr r"
    by (simp add: update_defs ex_defs Let_def)
  then obtain r where
    r: "update_agent ex_caps ex_args True True 0 ?obs ?nobs [0 \<mapsto> 1] ?rw None
          [0 \<mapsto> ex_buffer] 0 ex_agent = Inr r"
    by blast
  have o: "?obs (0::nat) = Some (se_obs 5 (Some 1))" by simp
  have n: "?nobs (0::nat) = Some (se_obs 7 (Some 2))" by simp
  have x: "extract_signals None (se_obs 5 (Some 1)) (se_obs 7 (Some 2))
             = Inr (1, 2, Map.empty, Map.empty)"
    by (simp add: extract_signals_def se_obs_def)
  have w: "?rw (0::nat) = Some (Scalar (PyFloat 1))" by simp
  have l: "latent_reward (Scalar (PyFloat 1)) = Inr (PyFloat 1)" by simp
  from infer_latent_called_once[OF o n x w l r]
  have "filter is_infer_latent (as_events r) = [InferLatent 0 True [Fin 1] [] (PyFloat 1) [Fin 2]]"
    by (simp add: ex_caps_def ex_args_def se_obs_def)
  with r show ?thesis by blast
qed


section \<open>Properties of a simulation step\<close>

lemmas step_defs =
  run_training_def run_simulation_def initialize_agents_def initialize_replay_buffers_def
  simulation_step_def collect_policy_information_def setup_si_for_training_def
  setup_si_agent_def handle_si_state_changes_def handle_si_agent_def add_policy_info_def
  add_allocations_def discrete_allocations_def belief_about_state_def any_isnan_def
  py_min_def py_max_def

lemma any_isnan_iff: "any_isnan d \<longleftrightarrow> NaN \<in> set d"
  by (auto simp: any_isnan_def list_ex_iff)

lemma collect_agent_beliefs_error:
  "collect_agent_beliefs ags = Inl e \<Longrightarrow> e = InvalidBeliefDistributionError"
  by (induction ags rule: collect_agent_beliefs.induct)
     (auto split: option.splits if_splits sum.splits)

lemma collect_agent_beliefs_nan:
  assumes "(agent_id, ag) \<in> set ags" "current_belief_distribution ag = Some d" "NaN \<in> set d"
  shows "collect_agent_beliefs ags = Inl InvalidBeliefDistributionError"
  using assms
proof (induction ags)
  case Nil
  then show ?case by simp
next
  case (Cons p rest)
  obtain a g where p: "p = (a, g)" by (cases p)
  show ?case
  proof (cases "(agent_id, ag) = (a, g)")
    case True
    with Cons.prems show ?thesis by (simp add: p any_isnan_iff)
  next
    case False
    with Cons p have "collect_agent_beliefs rest = Inl InvalidBeliefDistributionError"
      by auto
    then show ?thesis by (auto simp: p split: option.splits)
  qed
qed

subsection \<open>Invalid belief distributions\<close>

text \<open>
  A belief distribution whose only entry is infinite does not raise: the step completes
  and reports the belief 1.0, the entry clipped to \<open>[0, 1]\<close>. The code tests
  \<^verbatim>\<open>torch.isnan\<close> only.
\<close>

theorem infinite_belief_is_clipped:
  "map_sum id (\<lambda>p. (map agent_beliefs (sim_metrics (fst p)), snd p))
     (simulation_step (ex_world (\<lambda>i. ex_agent)) ex_caps ex_args True True () 0
        (ex_sim (ex_agent\<lparr>current_belief_distribution := Some [PInf]\<rparr>)))
   = Inr ([Some [(0, Fin 1)]], True)"
  by (simp add: step_defs update_defs ex_defs Let_def)

text \<open>
  Claim C1, amended. In a strategic-experimentation environment, if the belief
  distribution of any agent contains a \<open>NaN\<close> when the policy information is collected
  (the first thing a step does after the actions have been selected), the step raises
  \<^verbatim>\<open>InvalidBeliefDistributionError\<close> and so does the loop over the steps: no step
  result is returned and no value is put in place of the belief.
\<close>

theorem nan_belief_raises:
  assumes "has_safe_payoff w"
    "select_agent_actions w (sim_agents s) = (ags0, actions, action_probs)"
    "(agent_id, ag) \<in> set ags0" "current_belief_distribution ag = Some d" "NaN \<in> set d"
  shows "simulation_step w cp ar training grad envp step s = Inl InvalidBeliefDistributionError
       \<and> run_steps w cp ar training grad envp (step # rest) s = Inl InvalidBeliefDistributionError"
proof -
  from collect_agent_beliefs_nan[OF assms(3-5)] assms(1)
  have "collect_policy_information cp (has_safe_payoff w) ar training ags0
          = Inl InvalidBeliefDistributionError"
    by (simp add: collect_policy_information_def)
  with assms(2) have "simulation_step w cp ar training grad envp step s
          = Inl InvalidBeliefDistributionError"
    by (simp add: simulation_step_def)
  then show ?thesis by simp
qed

theorem nan_belief_raises_witness:
  "simulation_step (ex_world (\<lambda>i. ex_agent)) ex_caps ex_args True True () 0
       (ex_sim (ex_agent\<lparr>current_belief_distribution := Some [Fin (1 / 2), NaN]\<rparr>))
     = Inl InvalidBeliefDistributionError
   \<and> run_steps (ex_world (\<lambda>i. ex_agent)) ex_caps ex_args True True () [0, 1]
       (ex_sim (ex_agent\<lparr>current_belief_distribution := Some [Fin (1 / 2), NaN]\<rparr>))
     = Inl InvalidBeliefDistributionError"
  using nan_belief_raises[of "ex_world (\<lambda>i. ex_agent)"
          "ex_sim (ex_agent\<lparr>current_belief_distribution := Some [Fin (1 / 2), NaN]\<rparr>)"
          "[(0, ex_agent\<lparr>current_belief_distribution := Some [Fin (1 / 2), NaN]\<rparr>)]"
          "[0 \<mapsto> 1]" "[0 \<mapsto> [7 / 10, 3 / 10]]" 0
          "ex_agent\<lparr>current_belief_distribution := Some [Fin (1 / 2), NaN]\<rparr>"
          "[Fin (1 / 2), NaN]" ex_caps ex_args True True "()" 0 "[1]"]
  by (simp add: ex_world_def ex_sim_def)

subsection \<open>Allocations of discrete actions\<close>

text \<open>
  Claim C6. In a completed step of a strategic-experimentation environment with discrete
  actions, the step information handed to the metrics tracker has an entry
  \<^verbatim>\<open>allocations\<close> that maps every agent with an action-probability vector to the
  entry of index 1 of that vector, or to 0.5 when the vector has fewer than two entries,
  and holds no other agent. What the environment had put under \<^verbatim>\<open>allocations\<close> and the
  actions themselves play no part.
\<close>

theorem discrete_allocation_is_action_one_probability:
  assumes "has_safe_payoff w" "\<not> args_continuous_actions ar"
    "select_agent_actions w (sim_agents s) = (ags0, actions, action_probs)"
    "simulation_step w cp ar training grad envp step s = Inr (s', done)"
  shows "\<exists>nfo al. sim_metrics s' = sim_metrics s @ [nfo] \<and> allocations nfo = Some al
       \<and> (\<forall>agent_id. al agent_id =
            map_option (\<lambda>probs. if 2 \<le> length probs then probs ! 1 else 1 / 2)
              (action_probs agent_id))"
  using assms
  by (auto simp: simulation_step_def Let_def add_allocations_def discrete_allocations_def
           split: sum.splits prod.splits if_splits option.splits)

theorem discrete_allocation_is_action_one_probability_witness:
  "\<exists>s'. simulation_step (ex_world (\<lambda>i. ex_agent)) ex_caps
         (ex_args\<lparr>args_continuous_actions := False\<rparr>) False True () 0 (ex_sim ex_agent)
       = Inr (s', True)
     \<and> map (\<lambda>nfo. map_option (\<lambda>al. al 0) (allocations nfo)) (sim_metrics s')
         = [Some (Some (3 / 10))]"
proof -
  let ?w = "ex_world (\<lambda>i. ex_agent)" and ?ar = "ex_args\<lparr>args_continuous_actions := False\<rparr>"
  have "\<exists>s'. simulation_step ?w ex_caps ?ar False True () 0 (ex_sim ex_agent) = Inr (s', True)"
    by (simp add: step_defs update_defs ex_defs Let_def)
  then obtain s' where
    st: "simulation_step ?w ex_caps ?ar False True () 0 (ex_sim ex_agent) = Inr (s', True)"
    by blast
  have h: "has_safe_payoff ?w" by (simp add: ex_world_def)
  have c: "\<not> args_continuous_actions ?ar" by simp
  have sel: "select_agent_actions ?w (sim_agents (ex_sim ex_agent))
               = ([(0, ex_agent)], [0 \<mapsto> 1], [0 \<mapsto> [7 / 10, 3 / 10]])"
    by (simp add: ex_world_def ex_sim_def)
  from discrete_allocation_is_action_one_probability[OF h c sel st]
  have "map (\<lambda>nfo. map_option (\<lambda>al. al 0) (allocations nfo)) (sim_metrics s')
          = [Some (Some (3 / 10))]"
    by (auto simp: ex_sim_def)
  with st show ?thesis by (intro exI[of _ s']) simp
qed

section \<open>Properties of the continual-learning bookkeeping\<close>

lemma setup_si_agent_facts:
  assumes "setup_si_agent c agent_id ag = (ag', evs)"
  shows "seen_true_states ag' = seen_true_states ag \<and> \<not> list_ex is_register evs"
  using assms by (auto simp: setup_si_agent_def split: if_splits)

lemma handle_si_agent_seen:
  assumes "handle_si_agent c agent_id ag = Inr (ag', evs)" "seen_true_states ag = Some S"
  shows "\<exists>S'. seen_true_states ag' = Some S' \<and> S \<subseteq> S'
           \<and> (list_ex is_register evs \<longrightarrow> c \<notin> S \<and> c \<in> S')"
  using assms
  by (auto simp: handle_si_agent_def Let_def split: if_splits option.splits)

lemma setup_si_agent_keeps:
  assumes "setup_si_agent c agent_id ag = (ag', evs)"
  shows "use_si ag' = use_si ag \<and> has_belief_si ag' = has_belief_si ag
           \<and> has_policy_si ag' = has_policy_si ag"
  using assms by (auto simp: setup_si_agent_def split: if_splits)

lemma handle_si_agent_keeps:
  assumes "handle_si_agent c agent_id ag = Inr (ag', evs)"
  shows "use_si ag' = use_si ag \<and> has_belief_si ag' = has_belief_si ag
           \<and> has_policy_si ag' = has_policy_si ag"
  using assms
  by (auto simp: handle_si_agent_def Let_def split: if_splits option.splits)

lemma setup_si_agent_sets_task:
  assumes "use_si ag = Some True" "has_belief_si ag" "has_policy_si ag"
  shows "\<exists>ag'. setup_si_agent c agent_id ag = (ag', [SetTaskBelief agent_id c, SetTaskPolicy agent_id c])
           \<and> current_true_state ag' = Some c"
  using assms by (simp add: setup_si_agent_def)

text \<open>
  On an agent object that lives on, the bookkeeping does what is asked of it. Under any
  sequence of episode starts and episode ends applied to one and the same agent with
  continual learning and both trackers, the set of seen true states only grows; the end
  of an episode registers a task at most once for each distinct true state, and only for
  states that were not in the set before; and every episode start calls \<^verbatim>\<open>set_task\<close>
  on both trackers with the true state of that episode, and nothing else.
\<close>

lemma seen_states_grow_and_register_once:
  assumes "si_run agent_id calls ag = Inr (ag', trail)" "seen_true_states ag = Some S"
    "use_si ag = Some True" "has_belief_si ag" "has_policy_si ag"
  shows "\<exists>S'. seen_true_states ag' = Some S' \<and> S \<subseteq> S'
           \<and> distinct (registered_states trail)
           \<and> set (registered_states trail) \<subseteq> S' - S
           \<and> init_calls trail
               = concat (map (\<lambda>c. case c of
                                     EpisodeInit st \<Rightarrow> [SetTaskBelief agent_id st, SetTaskPolicy agent_id st]
                                   | EpisodeDone st \<Rightarrow> []) calls)"
  using assms
proof (induction calls arbitrary: ag S trail)
  case Nil
  then show ?case by simp
next
  case (Cons c cs)
  from Cons.prems(1) obtain ag1 evs rest where
    ap: "si_apply agent_id c ag = Inr (ag1, evs)"
    and run: "si_run agent_id cs ag1 = Inr (ag', rest)"
    and tr: "trail = (c, evs) # rest"
    by (auto split: sum.splits prod.splits)
  show ?case
  proof (cases c)
    case (EpisodeInit st)
    with ap have su: "setup_si_agent st agent_id ag = (ag1, evs)" by simp
    from setup_si_agent_facts[OF su] Cons.prems(2)
    have s1: "seen_true_states ag1 = Some S" by simp
    from setup_si_agent_keeps[OF su] Cons.prems(3-5)
    have k: "use_si ag1 = Some True" "has_belief_si ag1" "has_policy_si ag1" by simp_all
    from setup_si_agent_sets_task[OF Cons.prems(3-5), of st agent_id] su
    have ev: "evs = [SetTaskBelief agent_id st, SetTaskPolicy agent_id st]" by auto
    from Cons.IH[OF run s1 k] show ?thesis
      using tr EpisodeInit ev by auto
  next
    case (EpisodeDone st)
    with ap have h: "handle_si_agent st agent_id ag = Inr (ag1, evs)" by simp
    from handle_si_agent_seen[OF h Cons.prems(2)] obtain S1 where
      s1: "seen_true_states ag1 = Some S1" and sub: "S \<subseteq> S1"
      and reg: "list_ex is_register evs \<longrightarrow> st \<notin> S \<and> st \<in> S1"
      by blast
    from handle_si_agent_keeps[OF h] Cons.prems(3-5)
    have k: "use_si ag1 = Some True" "has_belief_si ag1" "has_policy_si ag1" by simp_all
    from Cons.IH[OF run s1 k] obtain S' where
      f: "seen_true_states ag' = Some S'" "S1 \<subseteq> S'" "distinct (registered_states rest)"
         "set (registered_states rest) \<subseteq> S' - S1"
         "init_calls rest
               = concat (map (\<lambda>c. case c of
                                     EpisodeInit st \<Rightarrow> [SetTaskBelief agent_id st, SetTaskPolicy agent_id st]
                                   | EpisodeDone st \<Rightarrow> []) cs)"
      by blast
    show ?thesis
      using f sub reg tr EpisodeDone by auto
  qed
qed

lemma seen_states_grow_and_register_once_example:
  "\<exists>ag' trail. si_run 0 [EpisodeInit 0, EpisodeDone 0, EpisodeInit 1, EpisodeDone 1,
                          EpisodeInit 0, EpisodeDone 0] ex_agent = Inr (ag', trail)
     \<and> seen_true_states ag' = Some {0, 1}
     \<and> registered_states trail = [0, 1]
     \<and> init_calls trail = [SetTaskBelief 0 0, SetTaskPolicy 0 0, SetTaskBelief 0 1,
                            SetTaskPolicy 0 1, SetTaskBelief 0 0, SetTaskPolicy 0 0]"
proof -
  let ?cs = "[EpisodeInit 0, EpisodeDone 0, EpisodeInit 1, EpisodeDone 1, EpisodeInit 0, EpisodeDone 0]"
  have "\<exists>ag' trail. si_run 0 ?cs ex_agent = Inr (ag', trail)
          \<and> seen_true_states ag' = Some {0, 1} \<and> registered_states trail = [0, 1]"
    by (simp add: setup_si_agent_def handle_si_agent_def ex_agent_def Let_def insert_commute)
  then obtain ag' trail where
    r: "si_run 0 ?cs ex_agent = Inr (ag', trail)"
    and s: "seen_true_states ag' = Some {0, 1}" and g: "registered_states trail = [0, 1]"
    by blast
  have e: "seen_true_states ex_agent = Some {}" "use_si ex_agent = Some True"
    "has_belief_si ex_agent" "has_policy_si ex_agent"
    by (simp_all add: ex_agent_def)
  from seen_states_grow_and_register_once[OF r e]
  have "init_calls trail = [SetTaskBelief 0 0, SetTaskPolicy 0 0, SetTaskBelief 0 1,
                            SetTaskPolicy 0 1, SetTaskBelief 0 0, SetTaskPolicy 0 0]"
    by auto
  with r s g show ?thesis by blast
qed

text \<open>
  Claim C8. Over a sequence of training episodes the seen set of an agent should only
  grow and a task should be registered at most once for each distinct true state of each
  agent, with \<^verbatim>\<open>set_task\<close> alone at an episode start. In the trainer this fails:
  \<^verbatim>\<open>_run_simulation\<close> assigns \<^verbatim>\<open>self.agents = self._initialize_agents(obs_dim)\<close> at
  the start of every episode, so the agents that \<^verbatim>\<open>run_agents\<close> built, loaded and put in
  training mode are replaced, and the agent with id 0 starts every episode with the seen
  set of a new agent. In two training episodes in true state 0, each ended by the
  environment, the episode start calls \<^verbatim>\<open>set_task\<close> with state 0 and nothing else, but
  the state 0 triggers the registration of a task at the end of both episodes, the
  second time although it had been seen at the end of the first.
\<close>

theorem new_agents_register_again:
  "map_sum id (map (\<lambda>s. (filter is_tracker_call (sim_events s),
                          map (\<lambda>p. seen_true_states (snd p)) (sim_agents s))))
     (run_training (ex_world (\<lambda>i. ex_agent)) ex_caps ex_args True 1 2 ())
   = Inr [([SetTaskBelief 0 0, SetTaskPolicy 0 0, RegisterTaskBelief 0, RegisterTaskPolicy 0,
            SetTaskBelief 0 0, SetTaskPolicy 0 0], [Some {0}]),
          ([SetTaskBelief 0 0, SetTaskPolicy 0 0, RegisterTaskBelief 0, RegisterTaskPolicy 0,
            SetTaskBelief 0 0, SetTaskPolicy 0 0], [Some {0}])]"
  by (simp add: step_defs update_defs ex_defs Let_def upt_rec numeral_2_eq_2)


section \<open>Properties of the aggregation of evaluation episodes\<close>

lemma collect_map:
  "(\<And>x. x \<in> set xs \<Longrightarrow> f x = Inr (g x)) \<Longrightarrow> collect f xs = Inr (map g xs)"
  by (induction xs) auto

lemma collect_comp: "collect f (map g xs) = collect (f \<circ> g) xs"
  by (induction xs) (auto split: sum.splits)

lemma collect_Inr:
  "collect f xs = Inr ys \<Longrightarrow> list_all2 (\<lambda>x y. f x = Inr y) xs ys"
  by (induction xs arbitrary: ys) (auto split: sum.splits)

lemma aggregate_items_map:
  "(\<And>k v. (k, v) \<in> set its \<Longrightarrow> aggregate_key other eps k v = Inr (g k v)) \<Longrightarrow>
     aggregate_items other eps its
       = Inr (List.map_filter (\<lambda>(k, v). map_option (Pair k) (g k v)) its)"
proof (induction its)
  case Nil
  show ?case by (simp add: List.map_filter_simps)
next
  case (Cons p its)
  obtain k v where p: "p = (k, v)" by (cases p)
  from Cons show ?case
    by (auto simp: p List.map_filter_simps split: option.splits)
qed

lemma num_of_dict_get: "num_of (dict_get ep ''episode_time'' (PNum 0)) = episode_time_of ep"
  by (auto simp: dict_get_def episode_time_of_def split: option.splits pyv.splits)

lemma num_entryD:
  "(case map_of d a of Some (PNum x) \<Rightarrow> True | _ \<Rightarrow> False) \<Longrightarrow> \<exists>x. map_of d a = Some (PNum x)"
  by (auto split: option.splits pyv.splits)

lemma list_entryD:
  "(case map_of d a of None \<Rightarrow> True | Some (PList xs) \<Rightarrow> True | _ \<Rightarrow> False) \<Longrightarrow>
     map_of d a = None \<or> (\<exists>xs. map_of d a = Some (PList xs))"
  by (auto split: option.splits pyv.splits)

lemma np_mean_nums:
  assumes "xs \<noteq> []" "\<And>x. x \<in> set xs \<Longrightarrow> f x = PNum (g x)"
  shows "np_mean other (map f xs) = Inr (PNum (mean (map g xs)))"
proof -
  have a: "list_all is_num (map f xs)" using assms(2) by (simp add: list_all_iff)
  have "\<And>x. x \<in> set xs \<Longrightarrow> (num_of \<circ> f) x = g x" using assms(2) by simp
  then have "map (num_of \<circ> f) xs = map g xs" by (rule map_cong[OF refl])
  then have b: "sum_list (map (num_of \<circ> f) xs) = sum_list (map g xs)" by (rule arg_cong)
  show ?thesis using assms(1) a by (simp add: np_mean_def mean_def b)
qed

lemma aggregate_key_shaped:
  assumes eps: "eps = first # rest" and d: "distinct (map fst first)"
    and kv: "(k, v) \<in> set first"
    and sh: "\<And>ep. ep \<in> set eps \<Longrightarrow> shaped ep k v"
  shows "aggregate_key other eps k v = Inr (spec_merge eps k v)"
proof -
  have ne: "eps \<noteq> []" using eps by simp
  from d kv have mf: "map_of first k = Some v" by simp
  consider (time) "k = ''episode_time''"
    | (rew) "k \<noteq> ''episode_time''" "k = ''total_rewards''"
    | (dl) "k \<noteq> ''episode_time''" "k \<noteq> ''total_rewards''" "is_dict_of_lists v"
    | (fl) "k \<noteq> ''episode_time''" "k \<noteq> ''total_rewards''" "\<not> is_dict_of_lists v" "is_list v"
    | (other) "k \<noteq> ''episode_time''" "k \<noteq> ''total_rewards''" "\<not> is_dict_of_lists v" "\<not> is_list v"
    by blast
  then show ?thesis
  proof cases
    case time
    have "\<And>ep. ep \<in> set eps \<Longrightarrow> dict_get ep ''episode_time'' (PNum 0) = PNum (episode_time_of ep)"
    proof -
      fix ep assume "ep \<in> set eps"
      from sh[OF this] time
      show "dict_get ep ''episode_time'' (PNum 0) = PNum (episode_time_of ep)"
        by (auto simp: shaped_def dict_get_def episode_time_of_def split: option.splits pyv.splits)
    qed
    from np_mean_nums[OF ne this] time show ?thesis
      by (simp add: aggregate_key_def spec_merge_def)
  next
    case rew
    from sh[of first] eps rew mf obtain kvs where v: "v = PDict kvs" and kne: "kvs \<noteq> []"
      by (cases v) (auto simp: shaped_def split: option.splits pyv.splits)
    have r0: "dict_get first ''total_rewards'' (PDict []) = PDict kvs"
      using mf rew v by (simp add: dict_get_def)
    have shd: "\<And>ep. ep \<in> set eps \<Longrightarrow> \<exists>dd. map_of ep ''total_rewards'' = Some (PDict dd)
          \<and> (\<forall>a\<in>set (map fst kvs). \<exists>x. map_of dd a = Some (PNum x))"
    proof -
      fix ep assume "ep \<in> set eps"
      from sh[OF this] rew v obtain dd where
        m: "map_of ep ''total_rewards'' = Some (PDict dd)"
        and la: "list_all (\<lambda>a. case map_of dd a of Some (PNum x) \<Rightarrow> True | _ \<Rightarrow> False)
                   (map fst kvs)"
        by (auto simp: shaped_def split: option.splits pyv.splits)
      have "\<forall>a\<in>set (map fst kvs). \<exists>x. map_of dd a = Some (PNum x)"
      proof
        fix a assume "a \<in> set (map fst kvs)"
        with la have "case map_of dd a of Some (PNum x) \<Rightarrow> True | _ \<Rightarrow> False"
          unfolding list_all_iff by blast
        then show "\<exists>x. map_of dd a = Some (PNum x)" by (rule num_entryD)
      qed
      with m show "\<exists>dd. map_of ep ''total_rewards'' = Some (PDict dd)
          \<and> (\<forall>a\<in>set (map fst kvs). \<exists>x. map_of dd a = Some (PNum x))"
        by blast
    qed
    have inner: "\<And>a. a \<in> set (map fst kvs) \<Longrightarrow>
        collect (get_or_zero a) (map (\<lambda>ep. dict_get ep ''total_rewards'' (PDict [])) eps)
          = Inr (map (\<lambda>ep. PNum (total_reward_of a ep)) eps)"
    proof -
      fix a assume a: "a \<in> set (map fst kvs)"
      have "collect (get_or_zero a \<circ> (\<lambda>ep. dict_get ep ''total_rewards'' (PDict []))) eps
          = Inr (map (\<lambda>ep. PNum (total_reward_of a ep)) eps)"
      proof (rule collect_map)
        fix ep assume "ep \<in> set eps"
        from shd[OF this] a show "(get_or_zero a \<circ> (\<lambda>ep. dict_get ep ''total_rewards'' (PDict []))) ep
            = Inr (PNum (total_reward_of a ep))"
          by (auto simp: dict_get_def total_reward_of_def)
      qed
      then show "collect (get_or_zero a) (map (\<lambda>ep. dict_get ep ''total_rewards'' (PDict [])) eps)
          = Inr (map (\<lambda>ep. PNum (total_reward_of a ep)) eps)"
        by (simp only: collect_comp)
    qed
    have outer: "collect (\<lambda>agent_id.
            case collect (get_or_zero agent_id) (map (\<lambda>ep. dict_get ep ''total_rewards'' (PDict [])) eps) of
              Inl e \<Rightarrow> Inl e
            | Inr rewards \<Rightarrow> (case np_mean other rewards of Inl e \<Rightarrow> Inl e | Inr m \<Rightarrow> Inr (agent_id, m)))
          (map fst kvs)
        = Inr (map (\<lambda>a. (a, PNum (mean (map (total_reward_of a) eps)))) (map fst kvs))"
    proof (rule collect_map)
      fix a assume a: "a \<in> set (map fst kvs)"
      have "np_mean other (map (\<lambda>ep. PNum (total_reward_of a ep)) eps)
              = Inr (PNum (mean (map (total_reward_of a) eps)))"
        by (rule np_mean_nums[OF ne]) simp
      with inner[OF a] show "(case collect (get_or_zero a) (map (\<lambda>ep. dict_get ep ''total_rewards'' (PDict [])) eps) of
              Inl e \<Rightarrow> Inl e
            | Inr rewards \<Rightarrow> (case np_mean other rewards of Inl e \<Rightarrow> Inl e | Inr m \<Rightarrow> Inr (a, m)))
          = Inr (a, PNum (mean (map (total_reward_of a) eps)))"
        by simp
    qed
    show ?thesis
      using rew v kne r0 outer eps
      by (simp add: aggregate_key_def spec_merge_def Let_def)
  next
    case dl
    then obtain kvs where v: "v = PDict kvs" by (cases v) auto
    have av: "\<And>a ep. a \<in> set (map fst kvs) \<Longrightarrow> ep \<in> set eps \<Longrightarrow>
        agent_values k a ep = Inr (agent_list k a ep)"
    proof -
      fix a ep assume a: "a \<in> set (map fst kvs)" and ep: "ep \<in> set eps"
      from sh[OF ep] dl v a show "agent_values k a ep = Inr (agent_list k a ep)"
        by (auto simp: shaped_def agent_values_def agent_list_def list_all_iff
                 split: option.splits pyv.splits)
    qed
    have "collect (\<lambda>agent_id. case collect (agent_values k agent_id) eps of
                       Inl e \<Rightarrow> Inl e
                     | Inr datas \<Rightarrow> Inr (agent_id, PList (concat datas)))
            (map fst kvs)
        = Inr (map (\<lambda>a. (a, PList (concat (map (agent_list k a) eps)))) (map fst kvs))"
    proof (rule collect_map)
      fix a assume a: "a \<in> set (map fst kvs)"
      have "collect (agent_values k a) eps = Inr (map (agent_list k a) eps)"
        by (rule collect_map) (rule av[OF a])
      then show "(case collect (agent_values k a) eps of
                       Inl e \<Rightarrow> Inl e
                     | Inr datas \<Rightarrow> Inr (a, PList (concat datas)))
           = Inr (a, PList (concat (map (agent_list k a) eps)))"
        by simp
    qed
    with dl v show ?thesis
      by (simp add: aggregate_key_def spec_merge_def)
  next
    case fl
    have "collect (list_values k) eps = Inr (map (flat_list k) eps)"
    proof (rule collect_map)
      fix ep assume ep: "ep \<in> set eps"
      from sh[OF ep] fl show "list_values k ep = Inr (flat_list k ep)"
        by (auto simp: shaped_def list_values_def flat_list_def split: option.splits pyv.splits)
    qed
    with fl show ?thesis
      by (simp add: aggregate_key_def spec_merge_def)
  next
    case other
    then show ?thesis by (simp add: aggregate_key_def spec_merge_def)
  qed
qed

text \<open>
  Claim C5. For a non-empty sequence of episode records in which every episode agrees in
  shape with the items of the first one, the aggregate is the first episode's items, in
  order, merged as the specification's table says: the mean of \<^verbatim>\<open>episode_time\<close>, the
  per-agent mean of \<^verbatim>\<open>total_rewards\<close>, per-agent concatenation for a mapping from
  agents to lists, concatenation for a list, both in the order of the episodes, and no
  entry for a value of any other shape; no exception is raised.
\<close>

theorem aggregate_merges_by_key:
  assumes "distinct (map fst first)"
    "list_all (\<lambda>ep. list_all (\<lambda>(k, v). shaped ep k v) first) (first # rest)"
  shows "aggregate_episode_results other (first # rest)
           = Inr (List.map_filter (\<lambda>(k, v). map_option (Pair k) (spec_merge (first # rest) k v))
                    first)"
proof -
  have "\<And>k v. (k, v) \<in> set first \<Longrightarrow>
          aggregate_key other (first # rest) k v = Inr (spec_merge (first # rest) k v)"
  proof -
    fix k v assume kv: "(k, v) \<in> set first"
    show "aggregate_key other (first # rest) k v = Inr (spec_merge (first # rest) k v)"
    proof (rule aggregate_key_shaped[OF refl assms(1) kv])
      fix ep assume "ep \<in> set (first # rest)"
      with assms(2) kv show "shaped ep k v"
        by (auto simp: list_all_iff)
    qed
  qed
  from aggregate_items_map[of first other "first # rest" "spec_merge (first # rest)", OF this]
  show ?thesis by (simp add: aggregate_episode_results_def)
qed

text \<open>Per-agent totals 2, 4 and 6 over three episodes aggregate to 4.\<close>

theorem aggregate_merges_by_key_witness:
  "aggregate_episode_results (\<lambda>xs. Inl TypeError) ex_eval_episodes
     = Inr [(''episode_time'', PNum 3),
            (''total_rewards'', PDict [(0, PNum 4), (1, PNum 3)]),
            (''belief_distributions'',
               PDict [(0, PList [PNum 1, PNum 2, PNum 3, PNum 4, PNum 5])]),
            (''true_states'', PList [PNum 0, PNum 1, PNum 0])]"
  using aggregate_merges_by_key[of "hd ex_eval_episodes" "tl ex_eval_episodes" "\<lambda>xs. Inl TypeError"]
  by (simp add: ex_eval_episodes_def shaped_def spec_merge_def mean_def episode_time_of_def
        total_reward_of_def agent_list_def flat_list_def List.map_filter_simps)

lemma aggregate_items_keys:
  assumes "aggregate_items other eps its = Inr agg"
    "\<And>k v r. (k, v) \<in> set its \<Longrightarrow> aggregate_key other eps k v = Inr r \<Longrightarrow> (r \<noteq> None) = P k v"
  shows "map fst agg = map fst (filter (\<lambda>(k, v). P k v) its)"
  using assms
proof (induction its arbitrary: agg)
  case Nil
  then show ?case by simp
next
  case (Cons p its)
  obtain k v where p: "p = (k, v)" by (cases p)
  from Cons.prems(1) obtain r agg' where
    r: "aggregate_key other eps k v = Inr r"
    and a: "aggregate_items other eps its = Inr agg'"
    and g: "agg = (case r of None \<Rightarrow> agg' | Some m \<Rightarrow> (k, m) # agg')"
    by (auto simp: p split: sum.splits)
  have ih: "map fst agg' = map fst (filter (\<lambda>(k, v). P k v) its)"
    by (rule Cons.IH[OF a]) (rule Cons.prems(2), auto)
  from Cons.prems(2)[of k v r] r p have "(r \<noteq> None) = P k v" by simp
  with ih g show ?case by (auto simp: p split: option.splits)
qed

lemma aggregate_items_subset:
  "aggregate_items other eps its = Inr agg \<Longrightarrow> set (map fst agg) \<subseteq> set (map fst its)"
proof (induction its arbitrary: agg)
  case Nil
  then show ?case by simp
next
  case (Cons p its)
  obtain k v where p: "p = (k, v)" by (cases p)
  from Cons.prems obtain r agg' where
    a: "aggregate_items other eps its = Inr agg'"
    and g: "agg = (case r of None \<Rightarrow> agg' | Some m \<Rightarrow> (k, m) # agg')"
    by (auto simp: p split: sum.splits)
  from Cons.IH[OF a] g show ?case by (auto simp: p split: option.splits)
qed

lemma aggregate_items_lookup:
  assumes "aggregate_items other eps its = Inr agg" "distinct (map fst its)"
    "map_of its k = Some v"
  shows "aggregate_key other eps k v = Inr (map_of agg k)"
  using assms
proof (induction its arbitrary: agg)
  case Nil
  then show ?case by simp
next
  case (Cons p its)
  obtain k' v' where p: "p = (k', v')" by (cases p)
  from Cons.prems(1) obtain r agg' where
    r: "aggregate_key other eps k' v' = Inr r"
    and a: "aggregate_items other eps its = Inr agg'"
    and g: "agg = (case r of None \<Rightarrow> agg' | Some m \<Rightarrow> (k', m) # agg')"
    by (auto simp: p split: sum.splits)
  from Cons.prems(2) have d: "distinct (map fst its)" and nk: "k' \<notin> set (map fst its)"
    by (simp_all add: p)
  from aggregate_items_subset[OF a] nk have na: "k' \<notin> set (map fst agg')" by blast
  show ?case
  proof (cases "k = k'")
    case True
    with Cons.prems(3) p have "v = v'" by simp
    moreover from na have "map_of agg' k' = None" by (simp add: map_of_eq_None_iff)
    ultimately show ?thesis using True r g by (auto split: option.splits)
  next
    case False
    with Cons.prems(3) p have "map_of its k = Some v" by simp
    from Cons.IH[OF a d this] False g show ?thesis by (auto split: option.splits)
  qed
qed

lemma aggregate_key_kept:
  assumes "map_of first k = Some v" "aggregate_key other (first # rest) k v = Inr r"
  shows "(r \<noteq> None) = key_kept k v"
proof -
  consider (time) "k = ''episode_time''"
    | (rew) "k \<noteq> ''episode_time''" "k = ''total_rewards''"
    | (rest) "k \<noteq> ''episode_time''" "k \<noteq> ''total_rewards''"
    by blast
  then show ?thesis
  proof cases
    case time
    with assms(2) show ?thesis
      by (auto simp: aggregate_key_def key_kept_def split: sum.splits)
  next
    case rew
    with assms show ?thesis
      by (cases v) (auto simp: aggregate_key_def key_kept_def dict_get_def split: sum.splits if_splits)
  next
    case rest
    with assms(2) show ?thesis
      by (cases v) (auto simp: aggregate_key_def key_kept_def split: sum.splits if_splits)
  qed
qed

lemma rewards_collect:
  assumes "\<And>ep. ep \<in> set eps \<Longrightarrow> rewards_numeric a ep"
  shows "collect (get_or_zero a) (map (\<lambda>ep. dict_get ep ''total_rewards'' (PDict [])) eps)
           = Inr (map (\<lambda>ep. PNum (total_reward_of a ep)) eps)"
proof -
  have "collect (get_or_zero a \<circ> (\<lambda>ep. dict_get ep ''total_rewards'' (PDict []))) eps
          = Inr (map (\<lambda>ep. PNum (total_reward_of a ep)) eps)"
  proof (rule collect_map)
    fix ep assume "ep \<in> set eps"
    from assms[OF this]
    show "(get_or_zero a \<circ> (\<lambda>ep. dict_get ep ''total_rewards'' (PDict []))) ep
            = Inr (PNum (total_reward_of a ep))"
      by (auto simp: rewards_numeric_def dict_get_def total_reward_of_def
               split: option.splits pyv.splits)
  qed
  then show ?thesis by (simp only: collect_comp)
qed

text \<open>
  Claim C10. Whenever the aggregation of a non-empty sequence of episode records
  returns, the keys of the aggregate are those items of the first episode that the code
  keeps, a function of the first episode alone, so a key the first episode lacks is
  absent from the aggregate; and the mean of \<^verbatim>\<open>total_rewards\<close> of an agent of the first
  episode is the sum, over all episodes, of the agent's total, with 0 for an episode that
  has no entry for the agent, divided by the number of all episodes.
\<close>

theorem aggregate_follows_first_episode:
  assumes "distinct (map fst first)"
    "aggregate_episode_results other (first # rest) = Inr agg"
  shows "map fst agg = map fst (filter (\<lambda>(k, v). key_kept k v) first)
       \<and> (map_of first key = None \<longrightarrow> map_of agg key = None)
       \<and> (map_of first ''total_rewards'' = Some (PDict kvs) \<longrightarrow> a \<in> set (map fst kvs) \<longrightarrow>
            list_all (rewards_numeric a) (first # rest) \<longrightarrow>
            (\<exists>d. map_of agg ''total_rewards'' = Some (PDict d) \<and> map fst d = map fst kvs
               \<and> map_of d a = Some (PNum (mean (map (total_reward_of a) (first # rest))))))"
proof -
  let ?eps = "first # rest"
  from assms(2) have ai: "aggregate_items other ?eps first = Inr agg"
    by (simp add: aggregate_episode_results_def)
  have keys: "map fst agg = map fst (filter (\<lambda>(k, v). key_kept k v) first)"
  proof (rule aggregate_items_keys[OF ai])
    fix k v r assume "(k, v) \<in> set first" "aggregate_key other ?eps k v = Inr r"
    with assms(1) show "(r \<noteq> None) = key_kept k v"
      by (intro aggregate_key_kept) simp_all
  qed
  have absent: "map_of first key = None \<longrightarrow> map_of agg key = None"
  proof
    assume "map_of first key = None"
    then have "key \<notin> set (map fst first)" by (simp add: map_of_eq_None_iff)
    with aggregate_items_subset[OF ai] have "key \<notin> set (map fst agg)" by blast
    then show "map_of agg key = None" by (simp add: map_of_eq_None_iff)
  qed
  have zero: "map_of first ''total_rewards'' = Some (PDict kvs) \<longrightarrow> a \<in> set (map fst kvs) \<longrightarrow>
            list_all (rewards_numeric a) ?eps \<longrightarrow>
            (\<exists>d. map_of agg ''total_rewards'' = Some (PDict d) \<and> map fst d = map fst kvs
               \<and> map_of d a = Some (PNum (mean (map (total_reward_of a) ?eps))))"
  proof (intro impI)
    assume mf: "map_of first ''total_rewards'' = Some (PDict kvs)"
      and a: "a \<in> set (map fst kvs)" and rn: "list_all (rewards_numeric a) ?eps"
    define eps where "eps = first # rest"
    define f where "f = (\<lambda>agent_id.
        case collect (get_or_zero agent_id)
               (map (\<lambda>ep. dict_get ep ''total_rewards'' (PDict [])) eps) of
          Inl e \<Rightarrow> Inl e
        | Inr rewards \<Rightarrow>
            (case np_mean other rewards of Inl e \<Rightarrow> Inl e | Inr m \<Rightarrow> Inr (agent_id, m)))"
    from aggregate_items_lookup[OF ai assms(1) mf]
    have ak: "aggregate_key other ?eps ''total_rewards'' (PDict kvs)
                = Inr (map_of agg ''total_rewards'')" .
    from a have kne: "kvs \<noteq> []" by auto
    have r0: "dict_get first ''total_rewards'' (PDict []) = PDict kvs"
      using mf by (simp add: dict_get_def)
    from ak kne r0 obtain d where
      c: "collect f (map fst kvs) = Inr d" and m: "map_of agg ''total_rewards'' = Some (PDict d)"
      by (auto simp: aggregate_key_def Let_def f_def eps_def split: sum.splits)
    from collect_Inr[OF c] have l2: "list_all2 (\<lambda>x y. f x = Inr y) (map fst kvs) d" .
    have ffst: "\<And>x y. f x = Inr y \<Longrightarrow> fst y = x"
      by (auto simp: f_def split: sum.splits)
    have fa: "f a = Inr (a, PNum (mean (map (total_reward_of a) eps)))"
    proof -
      have "collect (get_or_zero a) (map (\<lambda>ep. dict_get ep ''total_rewards'' (PDict [])) eps)
              = Inr (map (\<lambda>ep. PNum (total_reward_of a ep)) eps)"
        by (rule rewards_collect) (use rn in \<open>auto simp: list_all_iff eps_def\<close>)
      moreover have "np_mean other (map (\<lambda>ep. PNum (total_reward_of a ep)) eps)
              = Inr (PNum (mean (map (total_reward_of a) eps)))"
        by (rule np_mean_nums) (simp_all add: eps_def)
      ultimately show ?thesis by (simp add: f_def)
    qed
    have fst_d: "map fst d = map fst kvs"
    proof -
      from l2 ffst have "list_all2 (\<lambda>x y. fst y = x) (map fst kvs) d"
        by (rule list_all2_mono)
      then show ?thesis by (induction rule: list_all2_induct) auto
    qed
    have "map_of d a = Some (PNum (mean (map (total_reward_of a) eps)))"
    proof -
      from a fst_d have "a \<in> set (map fst d)" by simp
      then obtain y where y: "map_of d a = Some y"
        by (cases "map_of d a") (auto simp: map_of_eq_None_iff)
      then have "(a, y) \<in> set d" by (rule map_of_SomeD)
      then obtain i where i: "i < length d" "d ! i = (a, y)" by (auto simp: in_set_conv_nth)
      with l2 have fi: "f (map fst kvs ! i) = Inr (a, y)"
        by (auto simp: list_all2_conv_all_nth)
      from ffst[OF fi] have "map fst kvs ! i = a" by simp
      with fi fa y show ?thesis by simp
    qed
    with m fst_d show "\<exists>d. map_of agg ''total_rewards'' = Some (PDict d) \<and> map fst d = map fst kvs
               \<and> map_of d a = Some (PNum (mean (map (total_reward_of a) ?eps)))"
      by (auto simp: eps_def)
  qed
  from keys absent zero show ?thesis by blast
qed

theorem aggregate_follows_first_episode_witness:
  "\<exists>agg. aggregate_episode_results (\<lambda>xs. Inl TypeError) ex_episodes = Inr agg
     \<and> map fst agg = [''episode_time'', ''total_rewards'', ''belief_distributions'', ''true_states'']
     \<and> map_of agg ''late'' = None
     \<and> (\<exists>d. map_of agg ''total_rewards'' = Some (PDict d) \<and> map_of d 1 = Some (PNum 2))"
proof -
  let ?first = "hd ex_episodes" and ?rest = "tl ex_episodes"
  have "\<exists>agg. aggregate_episode_results (\<lambda>xs. Inl TypeError) (?first # ?rest) = Inr agg"
    by (simp add: aggregate_episode_results_def aggregate_key_def ex_episodes_def np_mean_def
          dict_get_def agent_values_def list_values_def)
  then obtain agg where
    e: "aggregate_episode_results (\<lambda>xs. Inl TypeError) (?first # ?rest) = Inr agg"
    by blast
  have d: "distinct (map fst ?first)" by (simp add: ex_episodes_def)
  have c: "?first # ?rest = ex_episodes" by (simp add: ex_episodes_def)
  note t = aggregate_follows_first_episode[OF d e, of "''late''" "[(0, PNum 2), (1, PNum 3)]" 1]
  have k: "map fst agg
             = [''episode_time'', ''total_rewards'', ''belief_distributions'', ''true_states'']"
    using t[THEN conjunct1] by (simp add: ex_episodes_def key_kept_def)
  have l: "map_of agg ''late'' = None"
    using t[THEN conjunct2, THEN conjunct1] by (simp add: ex_episodes_def)
  have "\<exists>d. map_of agg ''total_rewards'' = Some (PDict d) \<and> map fst d = [0, 1]
           \<and> map_of d 1 = Some (PNum 2)"
    using t[THEN conjunct2, THEN conjunct2]
    by (simp add: ex_episodes_def rewards_numeric_def mean_def total_reward_of_def)
  then have z: "\<exists>d. map_of agg ''total_rewards'' = Some (PDict d) \<and> map_of d 1 = Some (PNum 2)"
    by blast
  from e c k l z show ?thesis by (intro exI[of _ agg] conjI) simp_all
qed

end
